theory Spec2Isabelle
  imports Complex_Main "HOL-Library.AList"
begin

section \<open>The confidence scoring engine of \<^verbatim>\<open>Backend/validation/confidence/confidence.py\<close>\<close>

text \<open>
  Modelling decisions.
  \<^item> A Python \<^verbatim>\<open>float\<close> is modelled by a \<^typ>\<open>real\<close>: arithmetic is exact, so the
    theorems below are about the scoring formulas, not about binary rounding error.
  \<^item> A Python \<^verbatim>\<open>str\<close> is a \<^typ>\<open>string\<close> whose characters are the code points
    0..255; the built-ins \<^verbatim>\<open>str.isdigit\<close>, \<^verbatim>\<open>str.lower\<close> and \<^verbatim>\<open>str.strip\<close> are written
    out for that range.
  \<^item> A value that may be \<^verbatim>\<open>None\<close> is an \<^typ>\<open>'a option\<close>. A record (claimed record or
    method result) is only read with \<^verbatim>\<open>.get(f)\<close>, so it is a map from field name to
    string; an absent key and a key bound to \<^verbatim>\<open>None\<close> both read as \<^term>\<open>None\<close>.
  \<^item> A dict that the code iterates over or builds by assignment is an association list
    in insertion order; assignment \<^verbatim>\<open>d[k] = v\<close> is \<^const>\<open>AList.update\<close>. The items of a
    Python dict have distinct keys.
  \<^item> The three functions of the external \<^verbatim>\<open>rapidfuzz.fuzz\<close> module are not part of the
    repository; they are the parameter \<open>F\<close> of every function that uses them, and nothing
    is assumed about the numbers they return.
  \<^item> Division and subscripting can raise in Python; they return a sum here.
  \<^item> Exact arithmetic cannot overflow. Where the range of a float matters (weights may be
    any number a caller supplies), the aggregator is modelled a second time, with the
    names ending in \<open>_ieee\<close>: a float is then a real inside the float range, an infinity
    or NaN, an operation whose exact result leaves the range gives an infinity, and a
    weight is a float or an integer that is converted to a float when it is used.
    Inside the range the arithmetic stays exact there too.
\<close>

subsection \<open>Python built-ins\<close>

datatype error = ZeroDivisionError | KeyError | OverflowError

type_synonym ('k, 'v) dict = "('k \<times> 'v) list"

type_synonym provider = "string \<Rightarrow> string option"

definition py_div :: "real \<Rightarrow> real \<Rightarrow> error + real" where
  "py_div x y = (if y = 0 then Inl ZeroDivisionError else Inr (x / y))"

definition dict_get :: "('k, 'v) dict \<Rightarrow> 'k \<Rightarrow> 'v \<Rightarrow> 'v" where
  "dict_get d k dflt = (case map_of d k of None \<Rightarrow> dflt | Some v \<Rightarrow> v)"

definition dict_index :: "('k, 'v) dict \<Rightarrow> 'k \<Rightarrow> error + 'v" where
  "dict_index d k = (case map_of d k of None \<Rightarrow> Inl KeyError | Some v \<Rightarrow> Inr v)"

definition map_get :: "('k \<rightharpoonup> 'v) \<Rightarrow> 'k \<Rightarrow> 'v \<Rightarrow> 'v" where
  "map_get m k dflt = (case m k of None \<Rightarrow> dflt | Some v \<Rightarrow> v)"

text \<open>\<^verbatim>\<open>not a\<close> for a value that is \<^verbatim>\<open>None\<close> or a string.\<close>

fun falsy :: "string option \<Rightarrow> bool" where
  "falsy None = True"
| "falsy (Some s) = (s = [])"

text \<open>\<^verbatim>\<open>ch.isdigit()\<close>: the ASCII digits and the superscripts one, two and three.\<close>

definition isdigit :: "char \<Rightarrow> bool" where
  "isdigit c = (c \<in> set ''0123456789'' \<or> c \<in> set [CHR 0xB2, CHR 0xB3, CHR 0xB9])"

definition isspace :: "char \<Rightarrow> bool" where
  "isspace c = (c \<in> set [CHR 0x09, CHR 0x0A, CHR 0x0B, CHR 0x0C, CHR 0x0D,
                          CHR 0x1C, CHR 0x1D, CHR 0x1E, CHR 0x1F, CHR 0x20, CHR 0x85, CHR 0xA0])"

text \<open>
  \<^verbatim>\<open>str.lower\<close> on the code points 0..255: the letters A to Z and the accented capitals
  0xC0 to 0xDE (the multiplication sign 0xD7 apart) move up by 32.
\<close>

definition upper_chars :: "char list" where
  "upper_chars = ''ABCDEFGHIJKLMNOPQRSTUVWXYZ'' @
     [CHR 0xC0, CHR 0xC1, CHR 0xC2, CHR 0xC3, CHR 0xC4, CHR 0xC5, CHR 0xC6, CHR 0xC7,
      CHR 0xC8, CHR 0xC9, CHR 0xCA, CHR 0xCB, CHR 0xCC, CHR 0xCD, CHR 0xCE, CHR 0xCF,
      CHR 0xD0, CHR 0xD1, CHR 0xD2, CHR 0xD3, CHR 0xD4, CHR 0xD5, CHR 0xD6, CHR 0xD8,
      CHR 0xD9, CHR 0xDA, CHR 0xDB, CHR 0xDC, CHR 0xDD, CHR 0xDE]"

definition lower_chars :: "char list" where
  "lower_chars = ''abcdefghijklmnopqrstuvwxyz'' @
     [CHR 0xE0, CHR 0xE1, CHR 0xE2, CHR 0xE3, CHR 0xE4, CHR 0xE5, CHR 0xE6, CHR 0xE7,
      CHR 0xE8, CHR 0xE9, CHR 0xEA, CHR 0xEB, CHR 0xEC, CHR 0xED, CHR 0xEE, CHR 0xEF,
      CHR 0xF0, CHR 0xF1, CHR 0xF2, CHR 0xF3, CHR 0xF4, CHR 0xF5, CHR 0xF6, CHR 0xF8,
      CHR 0xF9, CHR 0xFA, CHR 0xFB, CHR 0xFC, CHR 0xFD, CHR 0xFE]"

definition lower_char :: "char \<Rightarrow> char" where
  "lower_char c = (case map_of (zip upper_chars lower_chars) c of None \<Rightarrow> c | Some d \<Rightarrow> d)"

definition lower :: "string \<Rightarrow> string" where
  "lower s = map lower_char s"

definition strip :: "string \<Rightarrow> string" where
  "strip s = rev (dropWhile isspace (rev (dropWhile isspace s)))"

text \<open>\<^verbatim>\<open>"".join(ch for ch in a if ch.isdigit())\<close>\<close>

definition digits_of :: "string \<Rightarrow> string" where
  "digits_of a = filter isdigit a"

text \<open>
  \<^verbatim>\<open>round(x, ndigits)\<close> on exact numbers: the nearest multiple of \<open>10\<^sup>-\<^sup>n\<close>, a tie going
  to the even one.
\<close>

definition round_half_even :: "real \<Rightarrow> int" where
  "round_half_even x =
     (let n = \<lfloor>x\<rfloor>; d = x - of_int n
      in if d < 1 / 2 then n else if 1 / 2 < d then n + 1 else if even n then n else n + 1)"

definition py_round :: "real \<Rightarrow> nat \<Rightarrow> real" where
  "py_round x ndigits = of_int (round_half_even (x * 10 ^ ndigits)) / 10 ^ ndigits"

subsection \<open>Configuration\<close>

definition FIELD_WEIGHTS :: "(string, real) dict" where
  "FIELD_WEIGHTS =
     [(''npi'', 0.30), (''name'', 0.25), (''address'', 0.20), (''phone'', 0.15),
      (''specialty'', 0.10)]"

definition METHOD_WEIGHTS :: "(string, real) dict" where
  "METHOD_WEIGHTS = [(''npi_registry'', 0.45), (''web_scrape'', 0.30), (''google_maps'', 0.25)]"

definition PHONE_EXACT_BONUS :: real where
  "PHONE_EXACT_BONUS = 10"

definition NPI_EXACT_SCORE :: real where
  "NPI_EXACT_SCORE = 100"

subsection \<open>Similarity functions\<close>

record fuzz =
  token_set_ratio :: "string \<Rightarrow> string \<Rightarrow> real"
  token_sort_ratio :: "string \<Rightarrow> string \<Rightarrow> real"
  ratio :: "string \<Rightarrow> string \<Rightarrow> real"

fun name_similarity :: "fuzz \<Rightarrow> string option \<Rightarrow> string option \<Rightarrow> real" where
  "name_similarity F (Some a) (Some b) =
     (if a = [] \<or> b = [] then 0 else token_set_ratio F a b)"
| "name_similarity F _ _ = 0"

fun address_similarity :: "fuzz \<Rightarrow> string option \<Rightarrow> string option \<Rightarrow> real" where
  "address_similarity F (Some a) (Some b) =
     (if a = [] \<or> b = [] then 0 else token_set_ratio F a b)"
| "address_similarity F _ _ = 0"

fun specialty_similarity :: "fuzz \<Rightarrow> string option \<Rightarrow> string option \<Rightarrow> real" where
  "specialty_similarity F (Some a) (Some b) =
     (if a = [] \<or> b = [] then 0
      else let a_clean = strip (lower a); b_clean = strip (lower b)
           in if a_clean = b_clean then 100 else token_sort_ratio F a_clean b_clean)"
| "specialty_similarity F _ _ = 0"

fun phone_similarity :: "fuzz \<Rightarrow> string option \<Rightarrow> string option \<Rightarrow> real" where
  "phone_similarity F (Some a) (Some b) =
     (if a = [] \<or> b = [] then 0
      else let da = digits_of a; db = digits_of b
           in if da = [] \<or> db = [] then 0
              else if da = db then min 100 (100 + PHONE_EXACT_BONUS)
              else ratio F da db)"
| "phone_similarity F _ _ = 0"

fun npi_similarity :: "string option \<Rightarrow> string option \<Rightarrow> real" where
  "npi_similarity (Some a) (Some b) =
     (if a = [] \<or> b = [] then 0
      else let a_digits = digits_of a; b_digits = digits_of b
           in if a_digits \<noteq> [] \<and> b_digits \<noteq> [] \<and> a_digits = b_digits then 100 else 0)"
| "npi_similarity _ _ = 0"

subsection \<open>Field comparator\<close>

definition field_confidence_for_method ::
  "fuzz \<Rightarrow> string \<Rightarrow> string option \<Rightarrow> string option \<Rightarrow> real" where
  "field_confidence_for_method F field extracted_value method_value =
     (let s = (if field = ''name'' then name_similarity F extracted_value method_value
               else if field = ''address'' then address_similarity F extracted_value method_value
               else if field = ''specialty''
                 then specialty_similarity F extracted_value method_value
               else if field = ''phone'' then phone_similarity F extracted_value method_value
               else if field = ''npi'' then npi_similarity extracted_value method_value
               else 0)
      in max 0 (min 100 s))"

subsection \<open>Method scorer\<close>

text \<open>
  The body of the \<^verbatim>\<open>for f in fields\<close> loop of \<^verbatim>\<open>compute_method_score\<close>; the state is
  \<open>(breakdown, weighted_sum, weight_total)\<close>.
\<close>

fun method_score_loop ::
  "fuzz \<Rightarrow> provider \<Rightarrow> provider \<Rightarrow> string list \<Rightarrow>
   (string, real) dict \<times> real \<times> real \<Rightarrow> (string, real) dict \<times> real \<times> real" where
  "method_score_loop F extracted method_result [] st = st"
| "method_score_loop F extracted method_result (f # fs) (breakdown, weighted_sum, weight_total) =
     (let ext_val = extracted f;
          m_val = method_result f;
          conf = field_confidence_for_method F f ext_val m_val;
          w = dict_get FIELD_WEIGHTS f 0
      in method_score_loop F extracted method_result fs
           (AList.update f (py_round conf 2) breakdown, weighted_sum + conf * w,
            weight_total + w))"

definition compute_method_score ::
  "fuzz \<Rightarrow> string \<Rightarrow> provider \<Rightarrow> provider \<Rightarrow> string list option \<Rightarrow>
   error + real \<times> (string, real) dict" where
  "compute_method_score F method_name extracted method_result fields_arg =
     (let fields = (case fields_arg of None \<Rightarrow> map fst FIELD_WEIGHTS | Some fs \<Rightarrow> fs)
      in case method_score_loop F extracted method_result fields ([], 0, 0) of
           (breakdown, weighted_sum, weight_total) \<Rightarrow>
             (case (if 0 < weight_total then py_div weighted_sum weight_total else Inr 0) of
                Inl e \<Rightarrow> Inl e
              | Inr method_score \<Rightarrow> Inr (py_round method_score 2, breakdown)))"

subsection \<open>Cross-method aggregator\<close>

text \<open>The inner loop \<^verbatim>\<open>for f in fields: per_field[f] = ...\<close>.\<close>

fun per_field_loop ::
  "fuzz \<Rightarrow> provider \<Rightarrow> provider \<Rightarrow> string list \<Rightarrow> (string, real) dict \<Rightarrow>
   (string, real) dict" where
  "per_field_loop F extracted result [] per_field = per_field"
| "per_field_loop F extracted result (f # fs) per_field =
     per_field_loop F extracted result fs
       (AList.update f (field_confidence_for_method F f (extracted f) (result f)) per_field)"

text \<open>The loop \<^verbatim>\<open>for method_name, result in method_results.items()\<close>.\<close>

fun per_method_loop ::
  "fuzz \<Rightarrow> provider \<Rightarrow> string list \<Rightarrow> (string, provider) dict \<Rightarrow>
   (string, (string, real) dict) dict \<Rightarrow> (string, (string, real) dict) dict" where
  "per_method_loop F extracted flds [] per_method_field = per_method_field"
| "per_method_loop F extracted flds ((method_name, result) # rest) per_method_field =
     per_method_loop F extracted flds rest
       (AList.update method_name (per_field_loop F extracted result flds []) per_method_field)"

text \<open>
  The loop \<^verbatim>\<open>for method_name, per_field in per_method_field.items()\<close> for one field;
  the state is \<open>(num, den)\<close>.
\<close>

fun combine_loop ::
  "(string \<rightharpoonup> real) \<Rightarrow> string \<Rightarrow> (string, (string, real) dict) dict \<Rightarrow> real \<times> real \<Rightarrow>
   error + real \<times> real" where
  "combine_loop method_weights f [] st = Inr st"
| "combine_loop method_weights f ((method_name, per_field) # rest) (num, den) =
     (let w = map_get method_weights method_name 0
      in case dict_index per_field f of
           Inl e \<Rightarrow> Inl e
         | Inr c \<Rightarrow> combine_loop method_weights f rest (num + c * w, den + w))"

text \<open>The loop \<^verbatim>\<open>for f in fields\<close> that fills \<^verbatim>\<open>combined\<close>.\<close>

fun combined_loop ::
  "(string \<rightharpoonup> real) \<Rightarrow> (string, (string, real) dict) dict \<Rightarrow> string list \<Rightarrow>
   (string, real) dict \<Rightarrow> error + (string, real) dict" where
  "combined_loop method_weights per_method_field [] combined = Inr combined"
| "combined_loop method_weights per_method_field (f # fs) combined =
     (case combine_loop method_weights f per_method_field (0, 0) of
        Inl e \<Rightarrow> Inl e
      | Inr (num, den) \<Rightarrow>
          (case (if den \<noteq> 0 then py_div num den else Inr 0) of
             Inl e \<Rightarrow> Inl e
           | Inr q \<Rightarrow>
               combined_loop method_weights per_method_field fs
                 (AList.update f (py_round q 2) combined)))"

definition compute_combined_field_confidences ::
  "fuzz \<Rightarrow> provider \<Rightarrow> (string, provider) dict \<Rightarrow> (string \<rightharpoonup> real) option \<Rightarrow>
   error + (string, real) dict \<times> (string, (string, real) dict) dict" where
  "compute_combined_field_confidences F extracted method_results method_weights_arg =
     (let method_weights =
            (case method_weights_arg of None \<Rightarrow> map_of METHOD_WEIGHTS | Some mw \<Rightarrow> mw);
          fields = map fst FIELD_WEIGHTS;
          per_method_field = per_method_loop F extracted fields method_results []
      in case combined_loop method_weights per_method_field fields [] of
           Inl e \<Rightarrow> Inl e
         | Inr combined \<Rightarrow> Inr (combined, per_method_field))"

subsection \<open>Overall confidence\<close>

fun overall_loop ::
  "(string \<rightharpoonup> real) \<Rightarrow> (string, real) dict \<Rightarrow> real \<times> real \<Rightarrow> real \<times> real" where
  "overall_loop field_weights [] st = st"
| "overall_loop field_weights ((f, conf) # rest) (num, den) =
     (let w = map_get field_weights f 0
      in overall_loop field_weights rest (num + conf * w, den + w))"

definition compute_overall_confidence ::
  "(string, real) dict \<Rightarrow> (string \<rightharpoonup> real) option \<Rightarrow> error + real" where
  "compute_overall_confidence combined_field_confidences field_weights_arg =
     (let field_weights =
            (case field_weights_arg of None \<Rightarrow> map_of FIELD_WEIGHTS | Some fw \<Rightarrow> fw)
      in case overall_loop field_weights combined_field_confidences (0, 0) of
           (num, den) \<Rightarrow>
             (case (if den \<noteq> 0 then py_div num den else Inr 0) of
                Inl e \<Rightarrow> Inl e
              | Inr overall \<Rightarrow> Inr (py_round overall 2)))"

subsection \<open>The full pipeline\<close>

record method_summary =
  method_score :: real
  breakdown :: "(string, real) dict"

fun method_scores_loop ::
  "fuzz \<Rightarrow> provider \<Rightarrow> (string, provider) dict \<Rightarrow> (string, method_summary) dict \<Rightarrow>
   error + (string, method_summary) dict" where
  "method_scores_loop F extracted [] method_scores = Inr method_scores"
| "method_scores_loop F extracted ((method_name, result) # rest) method_scores =
     (case compute_method_score F method_name extracted result None of
        Inl e \<Rightarrow> Inl e
      | Inr (score, bd) \<Rightarrow>
          method_scores_loop F extracted rest
            (AList.update method_name \<lparr>method_score = score, breakdown = bd\<rparr> method_scores))"

definition evaluate_all ::
  "fuzz \<Rightarrow> provider \<Rightarrow> (string, provider) dict \<Rightarrow> (string \<rightharpoonup> real) option \<Rightarrow>
   (string \<rightharpoonup> real) option \<Rightarrow>
   error + (string, method_summary) dict \<times> (string, real) dict \<times>
           (string, (string, real) dict) dict \<times> real" where
  "evaluate_all F extracted method_results method_weights field_weights =
     (case method_scores_loop F extracted method_results [] of
        Inl e \<Rightarrow> Inl e
      | Inr method_scores \<Rightarrow>
          (case compute_combined_field_confidences F extracted method_results method_weights of
             Inl e \<Rightarrow> Inl e
           | Inr (combined_fields, per_method_field_confidences) \<Rightarrow>
               (case compute_overall_confidence combined_fields field_weights of
                  Inl e \<Rightarrow> Inl e
                | Inr overall \<Rightarrow>
                    Inr (method_scores, combined_fields, per_method_field_confidences,
                         overall))))"

subsection \<open>Floats with infinities and NaN\<close>

text \<open>
  A Python float: a real number inside the range of a double, an infinity or NaN. An
  exact result \<open>x\<close> rounds to a double when \<open>\<bar>x\<bar> < 2\<^sup>1\<^sup>0\<^sup>2\<^sup>4 - 2\<^sup>9\<^sup>7\<^sup>0\<close> and overflows to an infinity
  otherwise. The two zeros are not told apart: nothing in the code depends on the sign of
  a zero.
\<close>

datatype pyfloat = Fin real | PInf | NInf | NaN

definition FLOAT_LIMIT :: real where
  "FLOAT_LIMIT = 2 ^ 1024 - 2 ^ 970"

definition to_float :: "real \<Rightarrow> pyfloat" where
  "to_float x = (if FLOAT_LIMIT \<le> x then PInf else if x \<le> - FLOAT_LIMIT then NInf else Fin x)"

text \<open>\<^verbatim>\<open>x + y\<close> on floats.\<close>

fun fadd :: "pyfloat \<Rightarrow> pyfloat \<Rightarrow> pyfloat" where
  "fadd NaN y = NaN"
| "fadd x NaN = NaN"
| "fadd PInf NInf = NaN"
| "fadd NInf PInf = NaN"
| "fadd PInf y = PInf"
| "fadd x PInf = PInf"
| "fadd NInf y = NInf"
| "fadd x NInf = NInf"
| "fadd (Fin x) (Fin y) = to_float (x + y)"

text \<open>\<^verbatim>\<open>x * y\<close> on floats: an infinity times zero is NaN.\<close>

fun fmul :: "pyfloat \<Rightarrow> pyfloat \<Rightarrow> pyfloat" where
  "fmul NaN y = NaN"
| "fmul x NaN = NaN"
| "fmul (Fin x) (Fin y) = to_float (x * y)"
| "fmul PInf (Fin y) = (if y = 0 then NaN else if 0 < y then PInf else NInf)"
| "fmul NInf (Fin y) = (if y = 0 then NaN else if 0 < y then NInf else PInf)"
| "fmul (Fin x) PInf = (if x = 0 then NaN else if 0 < x then PInf else NInf)"
| "fmul (Fin x) NInf = (if x = 0 then NaN else if 0 < x then NInf else PInf)"
| "fmul PInf PInf = PInf"
| "fmul PInf NInf = NInf"
| "fmul NInf PInf = NInf"
| "fmul NInf NInf = PInf"

text \<open>
  \<^verbatim>\<open>x / y\<close> on floats: a zero divisor raises, whatever the dividend; an infinity over an
  infinity is NaN; a finite number over an infinity is zero.
\<close>

fun fdiv :: "pyfloat \<Rightarrow> pyfloat \<Rightarrow> error + pyfloat" where
  "fdiv x (Fin y) =
     (if y = 0 then Inl ZeroDivisionError
      else case x of
             Fin a \<Rightarrow> Inr (to_float (a / y))
           | PInf \<Rightarrow> Inr (if 0 < y then PInf else NInf)
           | NInf \<Rightarrow> Inr (if 0 < y then NInf else PInf)
           | NaN \<Rightarrow> Inr NaN)"
| "fdiv x NaN = Inr NaN"
| "fdiv NaN y = Inr NaN"
| "fdiv (Fin a) y = Inr (Fin 0)"
| "fdiv x y = Inr NaN"

text \<open>\<^verbatim>\<open>if den\<close> on a float: every float but zero is true, NaN and the infinities too.\<close>

definition truthy :: "pyfloat \<Rightarrow> bool" where
  "truthy x = (x \<noteq> Fin 0)"

text \<open>\<^verbatim>\<open>round(x, ndigits)\<close> on a float: NaN and the infinities come back unchanged.\<close>

definition fround :: "pyfloat \<Rightarrow> nat \<Rightarrow> pyfloat" where
  "fround x ndigits = (case x of Fin a \<Rightarrow> Fin (py_round a ndigits) | PInf \<Rightarrow> PInf | NInf \<Rightarrow> NInf | NaN \<Rightarrow> NaN)"

text \<open>
  A weight as a caller may supply it: a float or an integer. In \<^verbatim>\<open>conf * w\<close> and
  \<^verbatim>\<open>den + w\<close> the left operand is a float, so an integer \<^verbatim>\<open>w\<close> is converted to a float
  first, and Python raises \<^verbatim>\<open>OverflowError\<close> when it is too large for one.
\<close>

datatype pynum = PyInt int | PyFloat pyfloat

fun as_float :: "pynum \<Rightarrow> error + pyfloat" where
  "as_float (PyFloat x) = Inr x"
| "as_float (PyInt i) =
     (if \<bar>real_of_int i\<bar> < FLOAT_LIMIT then Inr (Fin (real_of_int i)) else Inl OverflowError)"

type_synonym weights = "string \<rightharpoonup> pynum"

text \<open>A table of float literals, such as the two default tables.\<close>

definition float_table :: "(string, real) dict \<Rightarrow> weights" where
  "float_table d k = (case map_of d k of None \<Rightarrow> None | Some w \<Rightarrow> Some (PyFloat (Fin w)))"

subsection \<open>The aggregator on floats with infinities and NaN\<close>

text \<open>
  The loop \<^verbatim>\<open>for method_name, per_field in per_method_field.items()\<close> for one field;
  the state is \<open>(num, den)\<close>. The similarities in \<^verbatim>\<open>per_field\<close> are the comparator's
  clamped values.
\<close>

fun combine_loop_ieee ::
  "weights \<Rightarrow> string \<Rightarrow> (string, (string, real) dict) dict \<Rightarrow> pyfloat \<times> pyfloat \<Rightarrow>
   error + pyfloat \<times> pyfloat" where
  "combine_loop_ieee method_weights f [] st = Inr st"
| "combine_loop_ieee method_weights f ((method_name, per_field) # rest) (num, den) =
     (let w = map_get method_weights method_name (PyFloat (Fin 0))
      in case dict_index per_field f of
           Inl e \<Rightarrow> Inl e
         | Inr c \<Rightarrow>
             (case as_float w of
                Inl e \<Rightarrow> Inl e
              | Inr w_float \<Rightarrow>
                  combine_loop_ieee method_weights f rest
                    (fadd num (fmul (Fin c) w_float), fadd den w_float)))"

fun combined_loop_ieee ::
  "weights \<Rightarrow> (string, (string, real) dict) dict \<Rightarrow> string list \<Rightarrow>
   (string, pyfloat) dict \<Rightarrow> error + (string, pyfloat) dict" where
  "combined_loop_ieee method_weights per_method_field [] combined = Inr combined"
| "combined_loop_ieee method_weights per_method_field (f # fs) combined =
     (case combine_loop_ieee method_weights f per_method_field (Fin 0, Fin 0) of
        Inl e \<Rightarrow> Inl e
      | Inr (num, den) \<Rightarrow>
          (case (if truthy den then fdiv num den else Inr (Fin 0)) of
             Inl e \<Rightarrow> Inl e
           | Inr q \<Rightarrow>
               combined_loop_ieee method_weights per_method_field fs
                 (AList.update f (fround q 2) combined)))"

definition compute_combined_field_confidences_ieee ::
  "fuzz \<Rightarrow> provider \<Rightarrow> (string, provider) dict \<Rightarrow> weights option \<Rightarrow>
   error + (string, pyfloat) dict \<times> (string, (string, real) dict) dict" where
  "compute_combined_field_confidences_ieee F extracted method_results method_weights_arg =
     (let method_weights =
            (case method_weights_arg of None \<Rightarrow> float_table METHOD_WEIGHTS | Some mw \<Rightarrow> mw);
          fields = map fst FIELD_WEIGHTS;
          per_method_field = per_method_loop F extracted fields method_results []
      in case combined_loop_ieee method_weights per_method_field fields [] of
           Inl e \<Rightarrow> Inl e
         | Inr combined \<Rightarrow> Inr (combined, per_method_field))"

fun overall_loop_ieee ::
  "weights \<Rightarrow> (string, pyfloat) dict \<Rightarrow> pyfloat \<times> pyfloat \<Rightarrow> error + pyfloat \<times> pyfloat" where
  "overall_loop_ieee field_weights [] st = Inr st"
| "overall_loop_ieee field_weights ((f, conf) # rest) (num, den) =
     (let w = map_get field_weights f (PyFloat (Fin 0))
      in case as_float w of
           Inl e \<Rightarrow> Inl e
         | Inr w_float \<Rightarrow>
             overall_loop_ieee field_weights rest (fadd num (fmul conf w_float), fadd den w_float))"

definition compute_overall_confidence_ieee ::
  "(string, pyfloat) dict \<Rightarrow> weights option \<Rightarrow> error + pyfloat" where
  "compute_overall_confidence_ieee combined_field_confidences field_weights_arg =
     (let field_weights =
            (case field_weights_arg of None \<Rightarrow> float_table FIELD_WEIGHTS | Some fw \<Rightarrow> fw)
      in case overall_loop_ieee field_weights combined_field_confidences (Fin 0, Fin 0) of
           Inl e \<Rightarrow> Inl e
         | Inr (num, den) \<Rightarrow>
             (case (if truthy den then fdiv num den else Inr (Fin 0)) of
                Inl e \<Rightarrow> Inl e
              | Inr overall \<Rightarrow> Inr (fround overall 2)))"

subsection \<open>Notions used to state the properties\<close>

text \<open>
  The weighted average of the scores \<open>c x\<close> with the weights \<open>w x\<close> over the items of a
  list, taken to be 0 when the weights sum to 0.
\<close>

definition weighted_average :: "('a \<Rightarrow> real) \<Rightarrow> ('a \<Rightarrow> real) \<Rightarrow> 'a list \<Rightarrow> real" where
  "weighted_average c w xs =
     (if (\<Sum>x\<leftarrow>xs. w x) = 0 then 0 else (\<Sum>x\<leftarrow>xs. c x * w x) / (\<Sum>x\<leftarrow>xs. w x))"

text \<open>The similarity of one field between the claimed record and a method result.\<close>

definition similarity :: "fuzz \<Rightarrow> provider \<Rightarrow> provider \<Rightarrow> string \<Rightarrow> real" where
  "similarity F extracted result f = field_confidence_for_method F f (extracted f) (result f)"

text \<open>The weight tables in force for a call, after the defaults are applied.\<close>

definition method_weight :: "(string \<rightharpoonup> real) option \<Rightarrow> string \<Rightarrow> real" where
  "method_weight method_weights_arg m =
     map_get (case method_weights_arg of None \<Rightarrow> map_of METHOD_WEIGHTS | Some mw \<Rightarrow> mw) m 0"

definition field_weight :: "(string \<rightharpoonup> real) option \<Rightarrow> string \<Rightarrow> real" where
  "field_weight field_weights_arg f =
     map_get (case field_weights_arg of None \<Rightarrow> map_of FIELD_WEIGHTS | Some fw \<Rightarrow> fw) f 0"

definition tracked_fields :: "string list" where
  "tracked_fields = map fst FIELD_WEIGHTS"

text \<open>A number in the closed interval from 0 to 100.\<close>

definition in_range :: "real \<Rightarrow> bool" where
  "in_range x = (0 \<le> x \<and> x \<le> 100)"


text \<open>
  A stand-in for the external library that answers the same number \<open>c\<close> to every
  question, for evaluating the code at concrete inputs.
\<close>

definition fuzz_const :: "real \<Rightarrow> fuzz" where
  "fuzz_const c =
     \<lparr>token_set_ratio = (\<lambda>a b. c), token_sort_ratio = (\<lambda>a b. c), ratio = (\<lambda>a b. c)\<rparr>"

text \<open>
  The cross-method combination in the words of the specification: only the methods that
  supplied a non-null value for the field enter the weighted average.
\<close>

definition reporting_methods :: "string \<Rightarrow> (string, provider) dict \<Rightarrow> (string, provider) dict" where
  "reporting_methods f method_results = filter (\<lambda>(m, r). r f \<noteq> None) method_results"

definition spec_combined_confidence ::
  "fuzz \<Rightarrow> provider \<Rightarrow> (string, provider) dict \<Rightarrow> (string \<rightharpoonup> real) option \<Rightarrow> string \<Rightarrow> real" where
  "spec_combined_confidence F extracted method_results method_weights_arg f =
     weighted_average (\<lambda>(m, r). similarity F extracted r f)
       (\<lambda>(m, r). method_weight method_weights_arg m) (reporting_methods f method_results)"

text \<open>Reading the results of the fallible functions.\<close>

definition combined_of :: "error + (string, real) dict \<times> 'a \<Rightarrow> string \<Rightarrow> real option" where
  "combined_of res f = (case res of Inl e \<Rightarrow> None | Inr (combined, pmf) \<Rightarrow> map_of combined f)"


text \<open>The records of the source's \<^verbatim>\<open>demo()\<close>.\<close>

definition demo_extracted :: provider where
  "demo_extracted =
     [''npi'' \<mapsto> ''1003000480'',
      ''name'' \<mapsto> ''Kevin Bradley Rothchild'',
      ''address'' \<mapsto> ''1550 S Potomac St Ste 100, Aurora, CO 80012'',
      ''phone'' \<mapsto> ''303-493-7000'',
      ''specialty'' \<mapsto> ''Pediatrics'']"

definition demo_npireg :: provider where
  "demo_npireg =
     [''npi'' \<mapsto> ''1003000480'',
      ''name'' \<mapsto> ''Kevin B Rothchild'',
      ''address'' \<mapsto> ''1550 S Potomac St Ste 100, Aurora, CO 80012'',
      ''phone'' \<mapsto> ''3034937000'',
      ''specialty'' \<mapsto> ''Pediatrics'']"

definition demo_web :: provider where
  "demo_web =
     [''npi'' \<mapsto> ''1003000480'',
      ''name'' \<mapsto>
        ''NPI 1003000480 Kevin Bradley Rothchild in Aurora - Address, Medicare Status, and Contact'',
      ''address'' \<mapsto> ''1550 S Potomac St, Aurora, CO'',
      ''phone'' \<mapsto> ''(303) 493-7000'',
      ''specialty'' \<mapsto> ''Pediatrics'']"

definition demo_maps :: provider where
  "demo_maps =
     [''address'' \<mapsto> ''1550 S Potomac St Ste 100, Aurora, CO 80012'',
      ''phone'' \<mapsto> ''+1 303-493-7000'']"

definition demo_methods :: "(string, provider) dict" where
  "demo_methods =
     [(''npi_registry'', demo_npireg), (''web_scrape'', demo_web), (''google_maps'', demo_maps)]"

text \<open>The weights in force for a call of the aggregator on floats with infinities and NaN.\<close>

definition method_weight_ieee :: "weights option \<Rightarrow> string \<Rightarrow> pynum" where
  "method_weight_ieee method_weights_arg m =
     map_get (case method_weights_arg of None \<Rightarrow> float_table METHOD_WEIGHTS | Some mw \<Rightarrow> mw) m
       (PyFloat (Fin 0))"

definition field_weight_ieee :: "weights option \<Rightarrow> string \<Rightarrow> pynum" where
  "field_weight_ieee field_weights_arg f =
     map_get (case field_weights_arg of None \<Rightarrow> float_table FIELD_WEIGHTS | Some fw \<Rightarrow> fw) f
       (PyFloat (Fin 0))"

text \<open>A weight that converts to a float: every float, and an integer inside the range.\<close>

fun fits_float :: "pynum \<Rightarrow> bool" where
  "fits_float (PyFloat x) = True"
| "fits_float (PyInt i) = (\<bar>real_of_int i\<bar> < FLOAT_LIMIT)"

text \<open>A weight that is a finite number and not negative, and the number it is.\<close>

fun finite_nonneg :: "pynum \<Rightarrow> bool" where
  "finite_nonneg (PyInt i) = (0 \<le> i)"
| "finite_nonneg (PyFloat (Fin x)) = (0 \<le> x)"
| "finite_nonneg (PyFloat x) = False"

fun real_value :: "pynum \<Rightarrow> real" where
  "real_value (PyInt i) = real_of_int i"
| "real_value (PyFloat (Fin x)) = x"
| "real_value (PyFloat x) = 0"

text \<open>A float in the closed interval from 0 to 100; NaN and the infinities are not.\<close>

fun in_range_ieee :: "pyfloat \<Rightarrow> bool" where
  "in_range_ieee (Fin x) = in_range x"
| "in_range_ieee x = False"

definition combined_of_ieee :: "error + (string, pyfloat) dict \<times> 'a \<Rightarrow> string \<Rightarrow> pyfloat option" where
  "combined_of_ieee res f =
     (case res of Inl e \<Rightarrow> None | Inr (combined, pmf) \<Rightarrow> map_of combined f)"

text \<open>
  A stand-in for the external library whose answer depends on its arguments: the sum of
  their lengths.
\<close>

definition fuzz_lengths :: fuzz where
  "fuzz_lengths =
     \<lparr>token_set_ratio = (\<lambda>a b. real (length a + length b)),
      token_sort_ratio = (\<lambda>a b. real (length a + length b)),
      ratio = (\<lambda>a b. real (length a + length b))\<rparr>"

text \<open>
  Method weight tables: one with a negative entry, one with large non-negative floats,
  one with a large non-negative integer.
\<close>

definition skewed_weights :: weights where
  "skewed_weights =
     [''npi_registry'' \<mapsto> PyFloat (Fin 2), ''web_scrape'' \<mapsto> PyFloat (Fin 0),
      ''google_maps'' \<mapsto> PyFloat (Fin (- 1))]"

definition huge_weights :: weights where
  "huge_weights =
     [''npi_registry'' \<mapsto> PyFloat (Fin (10 ^ 308)), ''web_scrape'' \<mapsto> PyFloat (Fin (10 ^ 308))]"

definition huge_int_weights :: weights where
  "huge_int_weights = [''npi_registry'' \<mapsto> PyInt (10 ^ 400)]"

section \<open>Closed forms of the loops\<close>

text \<open>
  Each loop of the source is a recursion over a list with an accumulator. The lemmas of
  this section compute what the loops return: sums over the list, and association
  lists built by assignment.
\<close>

lemma update_fresh: "k \<notin> fst ` set al \<Longrightarrow> AList.update k v al = al @ [(k, v)]"
  by (induction al) auto

lemma fcm_range: "0 \<le> field_confidence_for_method F f a b" "field_confidence_for_method F f a b \<le> 100"
  by (simp_all add: field_confidence_for_method_def Let_def)

lemma round_half_even_ge_floor: "\<lfloor>x\<rfloor> \<le> round_half_even x"
  by (simp add: round_half_even_def Let_def)

lemma round_half_even_le_ceiling: "round_half_even x \<le> \<lceil>x\<rceil>"
proof -
  have "\<lfloor>x\<rfloor> \<le> \<lceil>x\<rceil>" by linarith
  moreover have "\<lfloor>x\<rfloor> + 1 \<le> \<lceil>x\<rceil>" if "0 < x - of_int \<lfloor>x\<rfloor>"
    using that by linarith
  ultimately show ?thesis
    by (auto simp add: round_half_even_def Let_def)
qed

lemma py_round_range:
  assumes "0 \<le> x" "x \<le> 100"
  shows "0 \<le> py_round x 2" "py_round x 2 \<le> 100"
proof -
  have "0 \<le> \<lfloor>x * 100\<rfloor>" using assms by simp
  then have "0 \<le> round_half_even (x * 100)"
    using round_half_even_ge_floor [of "x * 100"] by linarith
  then show "0 \<le> py_round x 2" by (simp add: py_round_def)
  have "\<lceil>x * 100\<rceil> \<le> 10000" using assms by (simp add: ceiling_le_iff)
  then have "round_half_even (x * 100) \<le> 10000"
    using round_half_even_le_ceiling [of "x * 100"] by linarith
  then have "real_of_int (round_half_even (x * 100)) \<le> 10000" by linarith
  then show "py_round x 2 \<le> 100" by (simp add: py_round_def)
qed

lemma py_round_zero: "py_round 0 n = 0"
  by (simp add: py_round_def round_half_even_def)

lemma fold_update_map_of:
  "map_of (fold (\<lambda>f. AList.update f (g f)) fs acc) k =
     (if k \<in> set fs then Some (g k) else map_of acc k)"
  by (induction fs arbitrary: acc) (auto simp add: update_conv')

lemma fold_update_distinct:
  "distinct fs \<Longrightarrow> set fs \<inter> fst ` set acc = {} \<Longrightarrow>
   fold (\<lambda>f. AList.update f (g f)) fs acc = acc @ map (\<lambda>f. (f, g f)) fs"
proof (induction fs arbitrary: acc)
  case Nil
  then show ?case by simp
next
  case (Cons f fs)
  from Cons.prems have fresh: "f \<notin> fst ` set acc" by auto
  have "fold (\<lambda>f. AList.update f (g f)) fs (acc @ [(f, g f)]) =
        (acc @ [(f, g f)]) @ map (\<lambda>f. (f, g f)) fs"
    using Cons.prems by (intro Cons.IH) auto
  then show ?case by (simp add: update_fresh [OF fresh])
qed

lemma method_score_loop_eq:
  "method_score_loop F e r fs (bd, ws, wt) =
     (fold (\<lambda>f. AList.update f (py_round (field_confidence_for_method F f (e f) (r f)) 2)) fs bd,
      ws + (\<Sum>f\<leftarrow>fs. field_confidence_for_method F f (e f) (r f) * dict_get FIELD_WEIGHTS f 0),
      wt + (\<Sum>f\<leftarrow>fs. dict_get FIELD_WEIGHTS f 0))"
  by (induction fs arbitrary: bd ws wt) (simp_all add: Let_def algebra_simps)

lemma per_field_loop_eq:
  "per_field_loop F e r fs acc =
     fold (\<lambda>f. AList.update f (field_confidence_for_method F f (e f) (r f))) fs acc"
  by (induction fs arbitrary: acc) simp_all

lemma per_method_loop_distinct:
  "distinct (map fst mrs) \<Longrightarrow> fst ` set mrs \<inter> fst ` set acc = {} \<Longrightarrow>
   per_method_loop F e fl mrs acc =
     acc @ map (\<lambda>(m, r). (m, per_field_loop F e r fl [])) mrs"
proof (induction mrs arbitrary: acc)
  case Nil
  then show ?case by simp
next
  case (Cons mr mrs)
  obtain m r where mr: "mr = (m, r)" by (cases mr)
  from Cons.prems mr have fresh: "m \<notin> fst ` set acc" by auto
  let ?pf = "per_field_loop F e r fl []"
  have "per_method_loop F e fl mrs (acc @ [(m, ?pf)]) =
        (acc @ [(m, ?pf)]) @ map (\<lambda>(m, r). (m, per_field_loop F e r fl [])) mrs"
    using Cons.prems mr by (intro Cons.IH) auto
  then show ?case by (simp add: mr update_fresh [OF fresh])
qed

lemma weighted_sum_range:
  fixes c w :: "'a \<Rightarrow> real"
  assumes "\<And>x. x \<in> set xs \<Longrightarrow> 0 \<le> c x \<and> c x \<le> 100 \<and> 0 \<le> w x"
  shows "0 \<le> (\<Sum>x\<leftarrow>xs. c x * w x) \<and> (\<Sum>x\<leftarrow>xs. c x * w x) \<le> 100 * (\<Sum>x\<leftarrow>xs. w x)"
  using assms
proof (induction xs)
  case Nil
  then show ?case by simp
next
  case (Cons x xs)
  have x: "0 \<le> c x" "c x \<le> 100" "0 \<le> w x" using Cons.prems [of x] by simp_all
  have "c x * w x \<le> 100 * w x" using x by (simp add: mult_right_mono)
  moreover have "0 \<le> c x * w x" using x by simp
  moreover have "0 \<le> (\<Sum>x\<leftarrow>xs. c x * w x) \<and> (\<Sum>x\<leftarrow>xs. c x * w x) \<le> 100 * (\<Sum>x\<leftarrow>xs. w x)"
    using Cons.prems by (intro Cons.IH) simp
  ultimately show ?case by (simp add: algebra_simps)
qed

lemma field_weight_nonneg: "0 \<le> dict_get FIELD_WEIGHTS f 0"
  by (simp add: dict_get_def FIELD_WEIGHTS_def)


lemma weight_sum_nonneg:
  fixes w :: "'a \<Rightarrow> real"
  assumes "\<And>x. x \<in> set xs \<Longrightarrow> 0 \<le> w x"
  shows "0 \<le> (\<Sum>x\<leftarrow>xs. w x)"
  using assms by (induction xs) (simp_all add: add_nonneg_nonneg)

lemma weighted_average_range:
  fixes c w :: "'a \<Rightarrow> real"
  assumes "\<And>x. x \<in> set xs \<Longrightarrow> 0 \<le> c x \<and> c x \<le> 100 \<and> 0 \<le> w x"
  shows "in_range (weighted_average c w xs)"
proof (cases "(\<Sum>x\<leftarrow>xs. w x) = 0")
  case True
  then show ?thesis by (simp add: weighted_average_def in_range_def)
next
  case False
  have "0 \<le> (\<Sum>x\<leftarrow>xs. w x)" using assms by (intro weight_sum_nonneg) simp
  with False have pos: "0 < (\<Sum>x\<leftarrow>xs. w x)" by simp
  from weighted_sum_range [of xs c w] assms
  have "0 \<le> (\<Sum>x\<leftarrow>xs. c x * w x)" "(\<Sum>x\<leftarrow>xs. c x * w x) \<le> 100 * (\<Sum>x\<leftarrow>xs. w x)"
    by simp_all
  with pos False show ?thesis
    by (simp add: weighted_average_def in_range_def pos_divide_le_eq)
qed

lemma tracked_fields_distinct: "distinct tracked_fields"
  by (simp add: tracked_fields_def FIELD_WEIGHTS_def)

lemma per_field_loop_tracked:
  "distinct fl \<Longrightarrow> per_field_loop F e r fl [] = map (\<lambda>f. (f, similarity F e r f)) fl"
  by (simp add: per_field_loop_eq fold_update_distinct similarity_def)

lemma combine_loop_eq:
  "f \<in> set fl \<Longrightarrow> distinct fl \<Longrightarrow>
   combine_loop mw f (map (\<lambda>(m, r). (m, per_field_loop F e r fl [])) mrs) (num, den) =
     Inr (num + (\<Sum>x\<leftarrow>mrs. similarity F e (snd x) f * map_get mw (fst x) 0),
          den + (\<Sum>x\<leftarrow>mrs. map_get mw (fst x) 0))"
proof (induction mrs arbitrary: num den)
  case Nil
  then show ?case by simp
next
  case (Cons mr mrs)
  obtain m r where mr: "mr = (m, r)" by (cases mr)
  have idx: "dict_index (per_field_loop F e r fl []) f = Inr (similarity F e r f)"
    using Cons.prems
    by (simp add: dict_index_def per_field_loop_eq fold_update_map_of similarity_def)
  show ?case
    using Cons.prems by (simp add: mr idx Let_def Cons.IH algebra_simps)
qed

lemma combined_loop_eq:
  "set fs \<subseteq> set fl \<Longrightarrow> distinct fl \<Longrightarrow>
   combined_loop mw (map (\<lambda>(m, r). (m, per_field_loop F e r fl [])) mrs) fs acc =
     Inr (fold (\<lambda>f. AList.update f
            (py_round (weighted_average (\<lambda>x. similarity F e (snd x) f)
                         (\<lambda>x. map_get mw (fst x) 0) mrs) 2)) fs acc)"
proof (induction fs arbitrary: acc)
  case Nil
  then show ?case by simp
next
  case (Cons f fs)
  then have f: "f \<in> set fl" and fs: "set fs \<subseteq> set fl" by simp_all
  show ?case
    using Cons.prems
    by (simp add: combine_loop_eq [OF f] Cons.IH [OF fs] py_div_def weighted_average_def)
qed

lemma overall_loop_eq:
  "overall_loop fw cs (num, den) =
     (num + (\<Sum>x\<leftarrow>cs. snd x * map_get fw (fst x) 0), den + (\<Sum>x\<leftarrow>cs. map_get fw (fst x) 0))"
  by (induction cs arbitrary: num den) (auto simp add: Let_def algebra_simps)

lemma compute_overall_confidence_eq:
  "compute_overall_confidence cs fwa =
     Inr (py_round (weighted_average snd (\<lambda>x. field_weight fwa (fst x)) cs) 2)"
  by (simp add: compute_overall_confidence_def overall_loop_eq py_div_def weighted_average_def
      field_weight_def Let_def)

lemma compute_combined_eq:
  assumes "distinct (map fst mrs)"
  shows "compute_combined_field_confidences F e mrs mwa =
     Inr (map (\<lambda>f. (f, py_round (weighted_average (\<lambda>x. similarity F e (snd x) f)
                                  (\<lambda>x. method_weight mwa (fst x)) mrs) 2)) tracked_fields,
          map (\<lambda>(m, r). (m, map (\<lambda>f. (f, similarity F e r f)) tracked_fields)) mrs)"
proof -
  have pm: "per_method_loop F e tracked_fields mrs [] =
      map (\<lambda>(m, r). (m, per_field_loop F e r tracked_fields [])) mrs"
    using per_method_loop_distinct [OF assms, of "[]"] by simp
  have cl: "combined_loop mw (map (\<lambda>(m, r). (m, per_field_loop F e r tracked_fields [])) mrs)
        tracked_fields [] =
      Inr (map (\<lambda>f. (f, py_round (weighted_average (\<lambda>x. similarity F e (snd x) f)
                                  (\<lambda>x. map_get mw (fst x) 0) mrs) 2)) tracked_fields)" for mw
    by (simp add: combined_loop_eq tracked_fields_distinct fold_update_distinct)
  show ?thesis
    unfolding compute_combined_field_confidences_def Let_def tracked_fields_def [symmetric] pm cl
    by (simp add: tracked_fields_distinct per_field_loop_tracked method_weight_def)
qed


lemma compute_method_score_eq:
  "compute_method_score F m e r fa =
     (let fl = (case fa of None \<Rightarrow> tracked_fields | Some fs \<Rightarrow> fs)
      in Inr (py_round (weighted_average (similarity F e r) (\<lambda>f. dict_get FIELD_WEIGHTS f 0) fl) 2,
              fold (\<lambda>f. AList.update f (py_round (similarity F e r f) 2)) fl []))"
proof -
  define fl where "fl = (case fa of None \<Rightarrow> map fst FIELD_WEIGHTS | Some fs \<Rightarrow> fs)"
  have "0 \<le> (\<Sum>f\<leftarrow>fl. dict_get FIELD_WEIGHTS f 0)"
    by (intro weight_sum_nonneg field_weight_nonneg)
  then have pos: "(0 < (\<Sum>f\<leftarrow>fl. dict_get FIELD_WEIGHTS f 0)) = ((\<Sum>f\<leftarrow>fl. dict_get FIELD_WEIGHTS f 0) \<noteq> 0)"
    by (simp add: less_le)
  have sim: "similarity F e r = (\<lambda>f. field_confidence_for_method F f (e f) (r f))"
    by (simp add: similarity_def fun_eq_iff)
  show ?thesis
    unfolding compute_method_score_def tracked_fields_def Let_def fl_def [symmetric]
      method_score_loop_eq sim
    by (simp add: py_div_def weighted_average_def pos)
qed

lemma method_scores_loop_distinct:
  "distinct (map fst mrs) \<Longrightarrow> fst ` set mrs \<inter> fst ` set acc = {} \<Longrightarrow>
   method_scores_loop F e mrs acc =
     Inr (acc @ map (\<lambda>(m, r). (m,
       \<lparr>method_score = py_round (weighted_average (similarity F e r)
                                 (\<lambda>f. dict_get FIELD_WEIGHTS f 0) tracked_fields) 2,
        breakdown = map (\<lambda>f. (f, py_round (similarity F e r f) 2)) tracked_fields\<rparr>)) mrs)"
proof (induction mrs arbitrary: acc)
  case Nil
  then show ?case by simp
next
  case (Cons mr mrs)
  obtain m r where mr: "mr = (m, r)" by (cases mr)
  from Cons.prems mr have fresh: "m \<notin> fst ` set acc" by auto
  let ?s = "\<lparr>method_score = py_round (weighted_average (similarity F e r)
                                 (\<lambda>f. dict_get FIELD_WEIGHTS f 0) tracked_fields) 2,
        breakdown = map (\<lambda>f. (f, py_round (similarity F e r f) 2)) tracked_fields\<rparr>"
  have ih: "method_scores_loop F e mrs (acc @ [(m, ?s)]) =
     Inr ((acc @ [(m, ?s)]) @ map (\<lambda>(m, r). (m,
       \<lparr>method_score = py_round (weighted_average (similarity F e r)
                                 (\<lambda>f. dict_get FIELD_WEIGHTS f 0) tracked_fields) 2,
        breakdown = map (\<lambda>f. (f, py_round (similarity F e r f) 2)) tracked_fields\<rparr>)) mrs)"
    using Cons.prems mr by (intro Cons.IH) auto
  show ?case
    by (simp add: mr compute_method_score_eq fold_update_distinct tracked_fields_distinct
        update_fresh [OF fresh] ih)
qed

lemma missing_value_zero:
  "falsy a \<or> falsy b \<Longrightarrow> field_confidence_for_method F f a b = 0"
  by (cases a; cases b) (auto simp add: field_confidence_for_method_def)

lemma evaluate_all_eq:
  assumes "distinct (map fst mrs)"
  shows "evaluate_all F e mrs mwa fwa =
     Inr (map (\<lambda>(m, r). (m,
            \<lparr>method_score = py_round (weighted_average (similarity F e r)
                                      (\<lambda>f. dict_get FIELD_WEIGHTS f 0) tracked_fields) 2,
             breakdown = map (\<lambda>f. (f, py_round (similarity F e r f) 2)) tracked_fields\<rparr>)) mrs,
          map (\<lambda>f. (f, py_round (weighted_average (\<lambda>x. similarity F e (snd x) f)
                                  (\<lambda>x. method_weight mwa (fst x)) mrs) 2)) tracked_fields,
          map (\<lambda>(m, r). (m, map (\<lambda>f. (f, similarity F e r f)) tracked_fields)) mrs,
          py_round (weighted_average snd (\<lambda>x. field_weight fwa (fst x))
            (map (\<lambda>f. (f, py_round (weighted_average (\<lambda>x. similarity F e (snd x) f)
                                  (\<lambda>x. method_weight mwa (fst x)) mrs) 2)) tracked_fields)) 2)"
proof -
  have ms: "method_scores_loop F e mrs [] =
     Inr (map (\<lambda>(m, r). (m,
            \<lparr>method_score = py_round (weighted_average (similarity F e r)
                                      (\<lambda>f. dict_get FIELD_WEIGHTS f 0) tracked_fields) 2,
             breakdown = map (\<lambda>f. (f, py_round (similarity F e r f) 2)) tracked_fields\<rparr>)) mrs)"
    using method_scores_loop_distinct [OF assms, of "[]"] by simp
  show ?thesis
    unfolding evaluate_all_def ms compute_combined_eq [OF assms] compute_overall_confidence_eq
    by simp
qed

lemma map_of_map_snd:
  "distinct (map fst xs) \<Longrightarrow> (k, v) \<in> set xs \<Longrightarrow>
   map_of (map (\<lambda>(k, v). (k, g v)) xs) k = Some (g v)"
  by (induction xs) (auto simp add: rev_image_eqI)

lemma map_of_map_key: "map_of (map (\<lambda>k. (k, g k)) ks) k = (if k \<in> set ks then Some (g k) else None)"
  by (induction ks) auto


lemma in_range_py_round: "in_range x \<Longrightarrow> in_range (py_round x 2)"
  using py_round_range [of x] by (simp add: in_range_def)

lemma in_range_similarity: "in_range (similarity F e r f)"
  by (simp add: in_range_def similarity_def fcm_range)

lemma set_update_subset: "set (AList.update k v al) \<subseteq> insert (k, v) (set al)"
  by (induction al) auto

lemma fold_update_set:
  "(k, v) \<in> set (fold (\<lambda>f. AList.update f (g f)) fs acc) \<Longrightarrow> (k, v) \<in> set acc \<or> v = g k"
proof (induction fs arbitrary: acc)
  case Nil
  then show ?case by simp
next
  case (Cons f fs)
  from Cons.prems have "(k, v) \<in> set (fold (\<lambda>f. AList.update f (g f)) fs (AList.update f (g f) acc))"
    by simp
  then have "(k, v) \<in> set (AList.update f (g f) acc) \<or> v = g k"
    by (rule Cons.IH)
  then show ?case
    using set_update_subset [of f "g f" acc] by auto
qed


lemma method_score_in_range:
  "in_range (weighted_average (similarity F e r) (\<lambda>f. dict_get FIELD_WEIGHTS f 0) fl)"
  using in_range_similarity [of F e r]
  by (intro weighted_average_range) (simp add: in_range_def field_weight_nonneg)

lemma case_prod_snd: "(\<lambda>(m, r). g r) = (\<lambda>x. g (snd x))"
  by (simp add: fun_eq_iff split_beta)

lemma case_prod_fst: "(\<lambda>(m, r). g m) = (\<lambda>x. g (fst x))"
  by (simp add: fun_eq_iff split_beta)

subsection \<open>Facts about the demo records and the default tables\<close>

lemma demo_methods_distinct: "distinct (map fst demo_methods)"
  by (simp add: demo_methods_def)

lemmas demo_eval =
  FIELD_WEIGHTS_def METHOD_WEIGHTS_def
  demo_methods_def demo_extracted_def demo_npireg_def demo_web_def demo_maps_def
  field_confidence_for_method_def digits_of_def isdigit_def lower_def lower_char_def strip_def
  isspace_def upper_chars_def lower_chars_def PHONE_EXACT_BONUS_def
  map_get_def dict_index_def py_div_def py_round_def round_half_even_def fuzz_const_def

section \<open>The aggregator on floats with infinities and NaN\<close>

text \<open>
  Whether the loops return, and which error they raise otherwise: a weight that does not
  convert to a float raises \<^verbatim>\<open>OverflowError\<close> at its first use, and nothing else raises.
\<close>

lemma float_limit_large: "(10::real) ^ 302 < FLOAT_LIMIT"
  by (simp add: FLOAT_LIMIT_def)

lemma to_float_Fin: "- FLOAT_LIMIT < x \<Longrightarrow> x < FLOAT_LIMIT \<Longrightarrow> to_float x = Fin x"
  by (simp add: to_float_def)

lemma as_float_finite_nonneg:
  "finite_nonneg w \<Longrightarrow> real_value w < FLOAT_LIMIT \<Longrightarrow> as_float w = Inr (Fin (real_value w))"
  by (cases w rule: finite_nonneg.cases) simp_all

lemma real_value_nonneg: "finite_nonneg w \<Longrightarrow> 0 \<le> real_value w"
  by (cases w rule: finite_nonneg.cases) simp_all

lemma as_float_fits: "fits_float w \<Longrightarrow> \<exists>x. as_float w = Inr x"
  by (cases w) simp_all

lemma as_float_not_fits: "\<not> fits_float w \<Longrightarrow> as_float w = Inl OverflowError"
  by (cases w) simp_all

lemma fdiv_truthy: "truthy y \<Longrightarrow> \<exists>q. fdiv x y = Inr q"
  by (cases x; cases y) (simp_all add: truthy_def)

lemma dict_index_per_field:
  "f \<in> set fl \<Longrightarrow> dict_index (per_field_loop F e r fl []) f = Inr (similarity F e r f)"
  by (simp add: dict_index_def per_field_loop_eq fold_update_map_of similarity_def)

lemma combine_loop_ieee_fits:
  "f \<in> set fl \<Longrightarrow> \<forall>x \<in> set mrs. fits_float (map_get mw (fst x) (PyFloat (Fin 0))) \<Longrightarrow>
   \<exists>st'. combine_loop_ieee mw f (map (\<lambda>(m, r). (m, per_field_loop F e r fl [])) mrs) st = Inr st'"
proof (induction mrs arbitrary: st)
  case Nil
  then show ?case by simp
next
  case (Cons mr mrs)
  obtain m r where mr: "mr = (m, r)" by (cases mr)
  obtain num den where st: "st = (num, den)" by (cases st)
  from Cons.prems mr obtain x where x: "as_float (map_get mw m (PyFloat (Fin 0))) = Inr x"
    using as_float_fits [of "map_get mw m (PyFloat (Fin 0))"] by auto
  from Cons.prems have rest: "\<forall>x \<in> set mrs. fits_float (map_get mw (fst x) (PyFloat (Fin 0)))"
    by simp
  show ?case
    using Cons.IH [OF Cons.prems(1) rest]
    by (simp add: mr st x dict_index_per_field [OF Cons.prems(1)])
qed

lemma combine_loop_ieee_overflow:
  "f \<in> set fl \<Longrightarrow> \<exists>x \<in> set mrs. \<not> fits_float (map_get mw (fst x) (PyFloat (Fin 0))) \<Longrightarrow>
   combine_loop_ieee mw f (map (\<lambda>(m, r). (m, per_field_loop F e r fl [])) mrs) st = Inl OverflowError"
proof (induction mrs arbitrary: st)
  case Nil
  then show ?case by simp
next
  case (Cons mr mrs)
  obtain m r where mr: "mr = (m, r)" by (cases mr)
  obtain num den where st: "st = (num, den)" by (cases st)
  show ?case
  proof (cases "fits_float (map_get mw m (PyFloat (Fin 0)))")
    case False
    then show ?thesis
      by (simp add: mr st as_float_not_fits dict_index_per_field [OF Cons.prems(1)])
  next
    case True
    then obtain x where x: "as_float (map_get mw m (PyFloat (Fin 0))) = Inr x"
      using as_float_fits by blast
    from True Cons.prems(2) mr
    have rest: "\<exists>x \<in> set mrs. \<not> fits_float (map_get mw (fst x) (PyFloat (Fin 0)))"
      by auto
    show ?thesis
      using Cons.IH [OF Cons.prems(1) rest]
      by (simp add: mr st x dict_index_per_field [OF Cons.prems(1)])
  qed
qed

lemma combined_loop_ieee_fits:
  assumes "set fs \<subseteq> set fl"
    and "\<forall>x \<in> set mrs. fits_float (map_get mw (fst x) (PyFloat (Fin 0)))"
  shows "\<exists>c. combined_loop_ieee mw (map (\<lambda>(m, r). (m, per_field_loop F e r fl [])) mrs) fs acc = Inr c"
  using assms(1)
proof (induction fs arbitrary: acc)
  case Nil
  then show ?case by simp
next
  case (Cons f fs)
  then have f: "f \<in> set fl" and fs: "set fs \<subseteq> set fl" by simp_all
  obtain num den where nd: "combine_loop_ieee mw f (map (\<lambda>(m, r). (m, per_field_loop F e r fl [])) mrs)
      (Fin 0, Fin 0) = Inr (num, den)"
    using combine_loop_ieee_fits [OF f assms(2), of F e "(Fin 0, Fin 0)"] by (metis surj_pair)
  obtain q where q: "(if truthy den then fdiv num den else Inr (Fin 0)) = Inr q"
    using fdiv_truthy [of den num] by (cases "truthy den") auto
  show ?case
    using Cons.IH [OF fs] by (simp add: nd q)
qed

lemma combined_loop_ieee_overflow:
  assumes "set fs \<subseteq> set fl" and "fs \<noteq> []"
    and "\<exists>x \<in> set mrs. \<not> fits_float (map_get mw (fst x) (PyFloat (Fin 0)))"
  shows "combined_loop_ieee mw (map (\<lambda>(m, r). (m, per_field_loop F e r fl [])) mrs) fs acc =
    Inl OverflowError"
proof -
  from assms(2) obtain f fs' where fs: "fs = f # fs'" by (cases fs) auto
  with assms(1) have f: "f \<in> set fl" by simp
  show ?thesis
    by (simp add: fs combine_loop_ieee_overflow [OF f assms(3)])
qed

lemma overall_loop_ieee_fits:
  "\<forall>x \<in> set cs. fits_float (map_get fw (fst x) (PyFloat (Fin 0))) \<Longrightarrow>
   \<exists>st'. overall_loop_ieee fw cs st = Inr st'"
proof (induction cs arbitrary: st)
  case Nil
  then show ?case by simp
next
  case (Cons c cs)
  obtain f conf where c: "c = (f, conf)" by (cases c)
  obtain num den where st: "st = (num, den)" by (cases st)
  from Cons.prems c obtain x where x: "as_float (map_get fw f (PyFloat (Fin 0))) = Inr x"
    using as_float_fits [of "map_get fw f (PyFloat (Fin 0))"] by auto
  from Cons.prems have rest: "\<forall>x \<in> set cs. fits_float (map_get fw (fst x) (PyFloat (Fin 0)))"
    by simp
  show ?case
    using Cons.IH [OF rest] by (simp add: c st x)
qed

lemma overall_loop_ieee_overflow:
  "\<exists>x \<in> set cs. \<not> fits_float (map_get fw (fst x) (PyFloat (Fin 0))) \<Longrightarrow>
   overall_loop_ieee fw cs st = Inl OverflowError"
proof (induction cs arbitrary: st)
  case Nil
  then show ?case by simp
next
  case (Cons c cs)
  obtain f conf where c: "c = (f, conf)" by (cases c)
  obtain num den where st: "st = (num, den)" by (cases st)
  show ?case
  proof (cases "fits_float (map_get fw f (PyFloat (Fin 0)))")
    case False
    then show ?thesis by (simp add: c st as_float_not_fits)
  next
    case True
    then obtain x where x: "as_float (map_get fw f (PyFloat (Fin 0))) = Inr x"
      using as_float_fits by blast
    from True Cons.prems c
    have rest: "\<exists>x \<in> set cs. \<not> fits_float (map_get fw (fst x) (PyFloat (Fin 0)))"
      by auto
    show ?thesis
      using Cons.IH [OF rest] by (simp add: c st x)
  qed
qed

lemma per_method_loop_tracked:
  "distinct (map fst mrs) \<Longrightarrow>
   per_method_loop F e tracked_fields mrs [] =
     map (\<lambda>(m, r). (m, per_field_loop F e r tracked_fields [])) mrs"
  using per_method_loop_distinct [of mrs "[]" F e tracked_fields] by simp

lemma tracked_fields_nonempty: "tracked_fields \<noteq> []"
  by (simp add: tracked_fields_def FIELD_WEIGHTS_def)

lemma compute_combined_ieee_fits:
  assumes "distinct (map fst mrs)"
    and "\<forall>x \<in> set mrs. fits_float (method_weight_ieee mwa (fst x))"
  shows "\<exists>res. compute_combined_field_confidences_ieee F e mrs mwa = Inr res"
proof -
  obtain c where "combined_loop_ieee
      (case mwa of None \<Rightarrow> float_table METHOD_WEIGHTS | Some mw \<Rightarrow> mw)
      (map (\<lambda>(m, r). (m, per_field_loop F e r tracked_fields [])) mrs) tracked_fields [] = Inr c"
    using combined_loop_ieee_fits [of tracked_fields tracked_fields mrs _ F e "[]"] assms(2)
    by (auto simp add: method_weight_ieee_def)
  then show ?thesis
    unfolding compute_combined_field_confidences_ieee_def Let_def tracked_fields_def [symmetric]
      per_method_loop_tracked [OF assms(1)]
    by simp
qed

lemma compute_combined_ieee_overflow:
  assumes "distinct (map fst mrs)"
    and "\<exists>x \<in> set mrs. \<not> fits_float (method_weight_ieee mwa (fst x))"
  shows "compute_combined_field_confidences_ieee F e mrs mwa = Inl OverflowError"
proof -
  have "combined_loop_ieee
      (case mwa of None \<Rightarrow> float_table METHOD_WEIGHTS | Some mw \<Rightarrow> mw)
      (map (\<lambda>(m, r). (m, per_field_loop F e r tracked_fields [])) mrs) tracked_fields [] =
      Inl OverflowError"
    using assms(2)
    by (intro combined_loop_ieee_overflow [of tracked_fields tracked_fields])
      (auto simp add: method_weight_ieee_def tracked_fields_nonempty)
  then show ?thesis
    unfolding compute_combined_field_confidences_ieee_def Let_def tracked_fields_def [symmetric]
      per_method_loop_tracked [OF assms(1)]
    by simp
qed

lemma compute_overall_ieee_fits:
  assumes "\<forall>x \<in> set cs. fits_float (field_weight_ieee fwa (fst x))"
  shows "\<exists>ov. compute_overall_confidence_ieee cs fwa = Inr ov"
proof -
  obtain num den where nd: "overall_loop_ieee
      (case fwa of None \<Rightarrow> float_table FIELD_WEIGHTS | Some fw \<Rightarrow> fw) cs (Fin 0, Fin 0) =
      Inr (num, den)"
    using overall_loop_ieee_fits [of cs _ "(Fin 0, Fin 0)"] assms
    by (fastforce simp add: field_weight_ieee_def)
  obtain q where q: "(if truthy den then fdiv num den else Inr (Fin 0)) = Inr q"
    using fdiv_truthy [of den num] by (cases "truthy den") auto
  show ?thesis
    by (simp add: compute_overall_confidence_ieee_def nd q)
qed

lemma compute_overall_ieee_overflow:
  assumes "\<exists>x \<in> set cs. \<not> fits_float (field_weight_ieee fwa (fst x))"
  shows "compute_overall_confidence_ieee cs fwa = Inl OverflowError"
proof -
  have "overall_loop_ieee
      (case fwa of None \<Rightarrow> float_table FIELD_WEIGHTS | Some fw \<Rightarrow> fw) cs (Fin 0, Fin 0) =
      Inl OverflowError"
    using assms by (intro overall_loop_ieee_overflow) (simp add: field_weight_ieee_def)
  then show ?thesis
    by (simp add: compute_overall_confidence_ieee_def)
qed

text \<open>Inside the range the loops compute the exact sums.\<close>

lemma combine_loop_ieee_exact:
  assumes "f \<in> set fl"
    and "\<forall>x \<in> set mrs. finite_nonneg (map_get mw (fst x) (PyFloat (Fin 0)))"
    and "0 \<le> n" and "0 \<le> d"
    and "n + 100 * (\<Sum>x\<leftarrow>mrs. real_value (map_get mw (fst x) (PyFloat (Fin 0)))) < FLOAT_LIMIT"
    and "d + (\<Sum>x\<leftarrow>mrs. real_value (map_get mw (fst x) (PyFloat (Fin 0)))) < FLOAT_LIMIT"
  shows "combine_loop_ieee mw f (map (\<lambda>(m, r). (m, per_field_loop F e r fl [])) mrs) (Fin n, Fin d) =
     Inr (Fin (n + (\<Sum>x\<leftarrow>mrs. similarity F e (snd x) f * real_value (map_get mw (fst x) (PyFloat (Fin 0))))),
          Fin (d + (\<Sum>x\<leftarrow>mrs. real_value (map_get mw (fst x) (PyFloat (Fin 0))))))"
  using assms(2-)
proof (induction mrs arbitrary: n d)
  case Nil
  then show ?case by simp
next
  case (Cons mr mrs)
  obtain m r where mr: "mr = (m, r)" by (cases mr)
  let ?w = "\<lambda>x. real_value (map_get mw (fst x) (PyFloat (Fin 0)))"
  let ?wm = "real_value (map_get mw m (PyFloat (Fin 0)))"
  let ?c = "similarity F e r f"
  have fin: "finite_nonneg (map_get mw m (PyFloat (Fin 0)))"
    and rest: "\<forall>x \<in> set mrs. finite_nonneg (map_get mw (fst x) (PyFloat (Fin 0)))"
    using Cons.prems(1) mr by simp_all
  have w0: "0 \<le> ?wm" using fin by (rule real_value_nonneg)
  have s0: "0 \<le> (\<Sum>x\<leftarrow>mrs. ?w x)"
    using rest by (intro weight_sum_nonneg real_value_nonneg) simp
  have c: "0 \<le> ?c" "?c \<le> 100"
    using in_range_similarity [of F e r f] by (simp_all add: in_range_def)
  have cw: "0 \<le> ?c * ?wm" "?c * ?wm \<le> 100 * ?wm"
    using c w0 by (simp_all add: mult_right_mono)
  have lim_n: "n + 100 * ?wm + 100 * (\<Sum>x\<leftarrow>mrs. ?w x) < FLOAT_LIMIT"
    using Cons.prems(4) by (simp add: mr algebra_simps)
  have lim_d: "d + ?wm + (\<Sum>x\<leftarrow>mrs. ?w x) < FLOAT_LIMIT"
    using Cons.prems(5) by (simp add: mr algebra_simps)
  have lim0: "0 < FLOAT_LIMIT" by (simp add: FLOAT_LIMIT_def)
  have wlim: "?wm < FLOAT_LIMIT"
    using lim_d s0 Cons.prems(3) by linarith
  have asf: "as_float (map_get mw m (PyFloat (Fin 0))) = Inr (Fin ?wm)"
    using fin wlim by (rule as_float_finite_nonneg)
  have prod: "to_float (?c * ?wm) = Fin (?c * ?wm)"
    using cw lim_n s0 w0 Cons.prems(2) lim0 by (intro to_float_Fin) linarith+
  have sum_n: "to_float (n + ?c * ?wm) = Fin (n + ?c * ?wm)"
    using cw lim_n s0 w0 Cons.prems(2) lim0 by (intro to_float_Fin) linarith+
  have sum_d: "to_float (d + ?wm) = Fin (d + ?wm)"
    using lim_d s0 w0 Cons.prems(3) lim0 by (intro to_float_Fin) linarith+
  have ih: "combine_loop_ieee mw f (map (\<lambda>(m, r). (m, per_field_loop F e r fl [])) mrs)
      (Fin (n + ?c * ?wm), Fin (d + ?wm)) =
     Inr (Fin (n + ?c * ?wm + (\<Sum>x\<leftarrow>mrs. similarity F e (snd x) f * ?w x)),
          Fin (d + ?wm + (\<Sum>x\<leftarrow>mrs. ?w x)))"
  proof (rule Cons.IH [OF rest])
    show "0 \<le> n + ?c * ?wm" using Cons.prems(2) cw by linarith
    show "0 \<le> d + ?wm" using Cons.prems(3) w0 by linarith
    show "n + ?c * ?wm + 100 * (\<Sum>x\<leftarrow>mrs. ?w x) < FLOAT_LIMIT" using lim_n cw by linarith
    show "d + ?wm + (\<Sum>x\<leftarrow>mrs. ?w x) < FLOAT_LIMIT" using lim_d by linarith
  qed
  show ?case
    by (simp add: mr dict_index_per_field [OF assms(1)] asf prod sum_n sum_d ih algebra_simps)
qed

lemma overall_loop_ieee_exact:
  assumes "\<forall>x \<in> set cs. finite_nonneg (map_get fw (fst x) (PyFloat (Fin 0))) \<and> in_range (snd x)"
    and "0 \<le> n" and "0 \<le> d"
    and "n + 100 * (\<Sum>x\<leftarrow>cs. real_value (map_get fw (fst x) (PyFloat (Fin 0)))) < FLOAT_LIMIT"
    and "d + (\<Sum>x\<leftarrow>cs. real_value (map_get fw (fst x) (PyFloat (Fin 0)))) < FLOAT_LIMIT"
  shows "overall_loop_ieee fw (map (\<lambda>(f, c). (f, Fin c)) cs) (Fin n, Fin d) =
     Inr (Fin (n + (\<Sum>x\<leftarrow>cs. snd x * real_value (map_get fw (fst x) (PyFloat (Fin 0))))),
          Fin (d + (\<Sum>x\<leftarrow>cs. real_value (map_get fw (fst x) (PyFloat (Fin 0))))))"
  using assms
proof (induction cs arbitrary: n d)
  case Nil
  then show ?case by simp
next
  case (Cons fc cs)
  obtain f c where fc: "fc = (f, c)" by (cases fc)
  let ?w = "\<lambda>x. real_value (map_get fw (fst x) (PyFloat (Fin 0)))"
  let ?wf = "real_value (map_get fw f (PyFloat (Fin 0)))"
  have fin: "finite_nonneg (map_get fw f (PyFloat (Fin 0)))" and cr: "in_range c"
    and rest: "\<forall>x \<in> set cs. finite_nonneg (map_get fw (fst x) (PyFloat (Fin 0))) \<and> in_range (snd x)"
    using Cons.prems(1) fc by simp_all
  have w0: "0 \<le> ?wf" using fin by (rule real_value_nonneg)
  have s0: "0 \<le> (\<Sum>x\<leftarrow>cs. ?w x)"
    using rest by (intro weight_sum_nonneg real_value_nonneg) simp
  have c: "0 \<le> c" "c \<le> 100" using cr by (simp_all add: in_range_def)
  have cw: "0 \<le> c * ?wf" "c * ?wf \<le> 100 * ?wf"
    using c w0 by (simp_all add: mult_right_mono)
  have lim_n: "n + 100 * ?wf + 100 * (\<Sum>x\<leftarrow>cs. ?w x) < FLOAT_LIMIT"
    using Cons.prems(4) by (simp add: fc algebra_simps)
  have lim_d: "d + ?wf + (\<Sum>x\<leftarrow>cs. ?w x) < FLOAT_LIMIT"
    using Cons.prems(5) by (simp add: fc algebra_simps)
  have lim0: "0 < FLOAT_LIMIT" by (simp add: FLOAT_LIMIT_def)
  have wlim: "?wf < FLOAT_LIMIT"
    using lim_d s0 Cons.prems(3) by linarith
  have asf: "as_float (map_get fw f (PyFloat (Fin 0))) = Inr (Fin ?wf)"
    using fin wlim by (rule as_float_finite_nonneg)
  have prod: "to_float (c * ?wf) = Fin (c * ?wf)"
    using cw lim_n s0 w0 Cons.prems(2) lim0 by (intro to_float_Fin) linarith+
  have sum_n: "to_float (n + c * ?wf) = Fin (n + c * ?wf)"
    using cw lim_n s0 w0 Cons.prems(2) lim0 by (intro to_float_Fin) linarith+
  have sum_d: "to_float (d + ?wf) = Fin (d + ?wf)"
    using lim_d s0 w0 Cons.prems(3) lim0 by (intro to_float_Fin) linarith+
  have ih: "overall_loop_ieee fw (map (\<lambda>(f, c). (f, Fin c)) cs) (Fin (n + c * ?wf), Fin (d + ?wf)) =
     Inr (Fin (n + c * ?wf + (\<Sum>x\<leftarrow>cs. snd x * ?w x)), Fin (d + ?wf + (\<Sum>x\<leftarrow>cs. ?w x)))"
  proof (rule Cons.IH [OF rest])
    show "0 \<le> n + c * ?wf" using Cons.prems(2) cw by linarith
    show "0 \<le> d + ?wf" using Cons.prems(3) w0 by linarith
    show "n + c * ?wf + 100 * (\<Sum>x\<leftarrow>cs. ?w x) < FLOAT_LIMIT" using lim_n cw by linarith
    show "d + ?wf + (\<Sum>x\<leftarrow>cs. ?w x) < FLOAT_LIMIT" using lim_d by linarith
  qed
  show ?case
    by (simp add: fc asf prod sum_n sum_d ih algebra_simps)
qed

text \<open>The guarded quotient of two exact sums inside the range is the weighted average.\<close>

lemma guarded_quotient_exact:
  assumes "in_range (weighted_average c w xs)"
  shows "(if truthy (Fin (\<Sum>x\<leftarrow>xs. w x))
          then fdiv (Fin (\<Sum>x\<leftarrow>xs. c x * w x)) (Fin (\<Sum>x\<leftarrow>xs. w x)) else Inr (Fin 0)) =
         Inr (Fin (weighted_average c w xs))"
proof (cases "(\<Sum>x\<leftarrow>xs. w x) = 0")
  case True
  then show ?thesis by (simp add: truthy_def weighted_average_def)
next
  case False
  have lim: "(100::real) < FLOAT_LIMIT" by (simp add: FLOAT_LIMIT_def)
  from assms False have "0 \<le> (\<Sum>x\<leftarrow>xs. c x * w x) / (\<Sum>x\<leftarrow>xs. w x)"
    "(\<Sum>x\<leftarrow>xs. c x * w x) / (\<Sum>x\<leftarrow>xs. w x) \<le> 100"
    by (simp_all add: weighted_average_def in_range_def)
  then have "to_float ((\<Sum>x\<leftarrow>xs. c x * w x) / (\<Sum>x\<leftarrow>xs. w x)) =
      Fin ((\<Sum>x\<leftarrow>xs. c x * w x) / (\<Sum>x\<leftarrow>xs. w x))"
    using lim by (intro to_float_Fin) linarith+
  with False show ?thesis by (simp add: truthy_def weighted_average_def)
qed

lemma fround_Fin: "fround (Fin x) n = Fin (py_round x n)"
  by (simp add: fround_def)

lemma combined_loop_ieee_exact:
  assumes "set fs \<subseteq> set fl"
    and "\<forall>x \<in> set mrs. finite_nonneg (map_get mw (fst x) (PyFloat (Fin 0)))"
    and "(\<Sum>x\<leftarrow>mrs. real_value (map_get mw (fst x) (PyFloat (Fin 0)))) \<le> 10 ^ 300"
  shows "combined_loop_ieee mw (map (\<lambda>(m, r). (m, per_field_loop F e r fl [])) mrs) fs acc =
     Inr (fold (\<lambda>f. AList.update f
            (Fin (py_round (weighted_average (\<lambda>x. similarity F e (snd x) f)
                    (\<lambda>x. real_value (map_get mw (fst x) (PyFloat (Fin 0)))) mrs) 2))) fs acc)"
  using assms(1)
proof (induction fs arbitrary: acc)
  case Nil
  then show ?case by simp
next
  case (Cons f fs)
  then have f: "f \<in> set fl" and fs: "set fs \<subseteq> set fl" by simp_all
  let ?w = "\<lambda>x. real_value (map_get mw (fst x) (PyFloat (Fin 0)))"
  let ?c = "\<lambda>x. similarity F e (snd x) f"
  have "100 * (\<Sum>x\<leftarrow>mrs. ?w x) \<le> 100 * 10 ^ 300" using assms(3) by simp
  also have "\<dots> = (10::real) ^ 302" by simp
  finally have lim: "100 * (\<Sum>x\<leftarrow>mrs. ?w x) < FLOAT_LIMIT"
    using float_limit_large by linarith
  have s0: "0 \<le> (\<Sum>x\<leftarrow>mrs. ?w x)"
    using assms(2) by (intro weight_sum_nonneg real_value_nonneg) simp
  have cl: "combine_loop_ieee mw f (map (\<lambda>(m, r). (m, per_field_loop F e r fl [])) mrs) (Fin 0, Fin 0) =
      Inr (Fin (\<Sum>x\<leftarrow>mrs. ?c x * ?w x), Fin (\<Sum>x\<leftarrow>mrs. ?w x))"
    using combine_loop_ieee_exact [OF f assms(2), of 0 0 F e] lim s0 by simp
  have rng: "in_range (weighted_average ?c ?w mrs)"
  proof (rule weighted_average_range)
    fix x assume "x \<in> set mrs"
    then show "0 \<le> ?c x \<and> ?c x \<le> 100 \<and> 0 \<le> ?w x"
      using in_range_similarity [of F e "snd x" f] assms(2)
      by (simp add: in_range_def real_value_nonneg)
  qed
  show ?case
    by (simp add: cl guarded_quotient_exact [OF rng] fround_Fin Cons.IH [OF fs])
qed

lemma compute_combined_ieee_exact:
  assumes "distinct (map fst mrs)"
    and "\<forall>x \<in> set mrs. finite_nonneg (method_weight_ieee mwa (fst x))"
    and "(\<Sum>x\<leftarrow>mrs. real_value (method_weight_ieee mwa (fst x))) \<le> 10 ^ 300"
  shows "compute_combined_field_confidences_ieee F e mrs mwa =
     Inr (map (\<lambda>f. (f, Fin (py_round (weighted_average (\<lambda>x. similarity F e (snd x) f)
                    (\<lambda>x. real_value (method_weight_ieee mwa (fst x))) mrs) 2))) tracked_fields,
          map (\<lambda>(m, r). (m, map (\<lambda>f. (f, similarity F e r f)) tracked_fields)) mrs)"
proof -
  define mw where "mw = (case mwa of None \<Rightarrow> float_table METHOD_WEIGHTS | Some mw \<Rightarrow> mw)"
  have w: "method_weight_ieee mwa = (\<lambda>m. map_get mw m (PyFloat (Fin 0)))"
    by (simp add: method_weight_ieee_def mw_def fun_eq_iff)
  have cl: "combined_loop_ieee mw (map (\<lambda>(m, r). (m, per_field_loop F e r tracked_fields [])) mrs)
        tracked_fields [] =
      Inr (map (\<lambda>f. (f, Fin (py_round (weighted_average (\<lambda>x. similarity F e (snd x) f)
                    (\<lambda>x. real_value (map_get mw (fst x) (PyFloat (Fin 0)))) mrs) 2))) tracked_fields)"
    using assms(2,3) unfolding w
    by (simp add: combined_loop_ieee_exact tracked_fields_distinct fold_update_distinct)
  show ?thesis
    unfolding compute_combined_field_confidences_ieee_def Let_def tracked_fields_def [symmetric]
      per_method_loop_tracked [OF assms(1)] mw_def [symmetric] cl w
    by (simp add: tracked_fields_distinct per_field_loop_tracked)
qed

lemma compute_overall_ieee_exact:
  assumes "\<forall>x \<in> set cs. finite_nonneg (field_weight_ieee fwa (fst x)) \<and> in_range (snd x)"
    and "(\<Sum>x\<leftarrow>cs. real_value (field_weight_ieee fwa (fst x))) \<le> 10 ^ 300"
  shows "compute_overall_confidence_ieee (map (\<lambda>(f, c). (f, Fin c)) cs) fwa =
     Inr (Fin (py_round (weighted_average snd (\<lambda>x. real_value (field_weight_ieee fwa (fst x))) cs) 2))"
proof -
  define fw where "fw = (case fwa of None \<Rightarrow> float_table FIELD_WEIGHTS | Some fw \<Rightarrow> fw)"
  have w: "field_weight_ieee fwa = (\<lambda>f. map_get fw f (PyFloat (Fin 0)))"
    by (simp add: field_weight_ieee_def fw_def fun_eq_iff)
  let ?w = "\<lambda>x. real_value (map_get fw (fst x) (PyFloat (Fin 0)))"
  have "100 * (\<Sum>x\<leftarrow>cs. ?w x) \<le> 100 * 10 ^ 300" using assms(2) unfolding w by simp
  also have "\<dots> = (10::real) ^ 302" by simp
  finally have lim: "100 * (\<Sum>x\<leftarrow>cs. ?w x) < FLOAT_LIMIT"
    using float_limit_large by linarith
  have s0: "0 \<le> (\<Sum>x\<leftarrow>cs. ?w x)"
    using assms(1) unfolding w by (intro weight_sum_nonneg real_value_nonneg) simp
  have ol: "overall_loop_ieee fw (map (\<lambda>(f, c). (f, Fin c)) cs) (Fin 0, Fin 0) =
      Inr (Fin (\<Sum>x\<leftarrow>cs. snd x * ?w x), Fin (\<Sum>x\<leftarrow>cs. ?w x))"
    using overall_loop_ieee_exact [of cs fw 0 0] assms(1) lim s0 unfolding w by simp
  have rng: "in_range (weighted_average snd ?w cs)"
  proof (rule weighted_average_range)
    fix x assume "x \<in> set cs"
    then show "0 \<le> snd x \<and> snd x \<le> 100 \<and> 0 \<le> ?w x"
      using assms(1) unfolding w by (simp add: in_range_def real_value_nonneg)
  qed
  show ?thesis
    unfolding compute_overall_confidence_ieee_def Let_def fw_def [symmetric] ol w
    by (simp add: guarded_quotient_exact [OF rng] fround_Fin)
qed

lemmas ieee_eval =
  float_table_def to_float_def FLOAT_LIMIT_def truthy_def fround_def

section \<open>The field comparator\<close>

text \<open>
  Claim C4. For every field and every value, a claimed value that is null or empty, or an
  observed value that is null or empty, gives the similarity 0: a missing value on either
  side is never skipped and never counts as a match. (The code does so for every field
  name, tracked or not.)
\<close>

theorem missing_value_scores_zero:
  assumes "falsy a \<or> falsy b"
  shows "field_confidence_for_method F f a b = 0"
proof -
  have name: "name_similarity F a b = 0"
    using assms by (cases a; cases b) auto
  have address: "address_similarity F a b = 0"
    using assms by (cases a; cases b) auto
  have specialty: "specialty_similarity F a b = 0"
    using assms by (cases a; cases b) auto
  have phone: "phone_similarity F a b = 0"
    using assms by (cases a; cases b) auto
  have npi: "npi_similarity a b = 0"
    using assms by (cases a; cases b) auto
  show ?thesis
    by (simp add: field_confidence_for_method_def name address specialty phone npi)
qed

theorem missing_value_scores_zero_witness:
  "falsy None \<and> falsy (Some '''') \<and>
   field_confidence_for_method (fuzz_const 100) ''name'' None (Some ''Kevin B Rothchild'') = 0 \<and>
   field_confidence_for_method (fuzz_const 100) ''address'' (Some ''1550 S Potomac St'') (Some '''') = 0"
  using missing_value_scores_zero [of None "Some ''Kevin B Rothchild''" "fuzz_const 100" "''name''"]
    missing_value_scores_zero [of "Some ''1550 S Potomac St''" "Some ''''" "fuzz_const 100" "''address''"]
  by simp

text \<open>
  Claim C5. For the field \<^verbatim>\<open>npi\<close> the comparator keeps the digits of both values and returns
  exactly 100 when the two digit strings are equal and not empty, and exactly 0 otherwise
  (also when a value is null): the similarity of identifiers is 0 or 100, nothing in
  between.
\<close>

theorem npi_exact_or_nothing:
  "field_confidence_for_method F ''npi'' (Some a) (Some b) =
     (if digits_of a \<noteq> [] \<and> digits_of a = digits_of b then 100 else 0) \<and>
   field_confidence_for_method F ''npi'' None y = 0 \<and>
   field_confidence_for_method F ''npi'' x None = 0 \<and>
   (field_confidence_for_method F ''npi'' x y = 0 \<or> field_confidence_for_method F ''npi'' x y = 100)"
proof -
  have d: "digits_of [] = []" by (simp add: digits_of_def)
  have 1: "field_confidence_for_method F ''npi'' (Some a) (Some b) =
     (if digits_of a \<noteq> [] \<and> digits_of a = digits_of b then 100 else 0)"
    using d by (auto simp add: field_confidence_for_method_def Let_def)
  have 2: "field_confidence_for_method F ''npi'' None y = 0"
    by (simp add: field_confidence_for_method_def)
  have 3: "field_confidence_for_method F ''npi'' x None = 0"
    by (cases x) (simp_all add: field_confidence_for_method_def)
  have 4: "field_confidence_for_method F ''npi'' x y = 0 \<or> field_confidence_for_method F ''npi'' x y = 100"
    by (cases x; cases y) (simp_all add: field_confidence_for_method_def Let_def)
  show ?thesis using 1 2 3 4 by blast
qed

theorem npi_exact_or_nothing_witness:
  "field_confidence_for_method (fuzz_const 50) ''npi'' (Some ''1003000480'') (Some ''1003000480'') = 100 \<and>
   field_confidence_for_method (fuzz_const 50) ''npi'' (Some ''1003000480'') (Some ''1003000481'') = 0 \<and>
   field_confidence_for_method (fuzz_const 50) ''npi'' (Some ''NPI 1003-000-480'') (Some ''1003000480'') = 100"
  using npi_exact_or_nothing [of "fuzz_const 50" "''1003000480''" "''1003000480''"]
    npi_exact_or_nothing [of "fuzz_const 50" "''1003000480''" "''1003000481''"]
    npi_exact_or_nothing [of "fuzz_const 50" "''NPI 1003-000-480''" "''1003000480''"]
  by (simp add: digits_of_def isdigit_def)

text \<open>
  Claim C3. For the field \<^verbatim>\<open>phone\<close> the comparator keeps the digits of both strings. When
  both digit strings are not empty and equal, it returns exactly 100 (the bonus for an
  exact match never takes the result above 100); when they are not empty and differ, it
  returns the library's edit-distance ratio of the two digit strings, clamped into the
  interval from 0 to 100.
\<close>

theorem phone_comparator:
  assumes "filter isdigit a \<noteq> []" and "filter isdigit b \<noteq> []"
  shows "field_confidence_for_method F ''phone'' (Some a) (Some b) =
           (if filter isdigit a = filter isdigit b then 100
            else max 0 (min 100 (ratio F (filter isdigit a) (filter isdigit b)))) \<and>
         in_range (field_confidence_for_method F ''phone'' (Some a) (Some b))"
proof -
  from assms have "a \<noteq> []" "b \<noteq> []" by auto
  with assms show ?thesis
    by (simp add: field_confidence_for_method_def digits_of_def Let_def PHONE_EXACT_BONUS_def
        in_range_def)
qed

theorem phone_comparator_witness:
  "filter isdigit ''(303) 493-7000'' = ''3034937000'' \<and>
   filter isdigit ''303-493-7000'' = ''3034937000'' \<and>
   filter isdigit ''+1 303-493-7000'' = ''13034937000'' \<and>
   field_confidence_for_method (fuzz_const 0) ''phone'' (Some ''(303) 493-7000'')
     (Some ''303-493-7000'') = 100 \<and>
   field_confidence_for_method fuzz_lengths ''phone'' (Some ''303-493-7000'')
     (Some ''+1 303-493-7000'') = 21 \<and>
   field_confidence_for_method (fuzz_const 150) ''phone'' (Some ''303-493-7000'')
     (Some ''+1 303-493-7000'') = 100 \<and>
   field_confidence_for_method (fuzz_const (- 20)) ''phone'' (Some ''303-493-7000'')
     (Some ''+1 303-493-7000'') = 0"
proof -
  have 1: "filter isdigit ''(303) 493-7000'' = ''3034937000''" by (simp add: isdigit_def)
  have 2: "filter isdigit ''303-493-7000'' = ''3034937000''" by (simp add: isdigit_def)
  have 3: "filter isdigit ''+1 303-493-7000'' = ''13034937000''" by (simp add: isdigit_def)
  have n1: "filter isdigit ''(303) 493-7000'' \<noteq> []" by (simp add: isdigit_def)
  have n2: "filter isdigit ''303-493-7000'' \<noteq> []" by (simp add: isdigit_def)
  have n3: "filter isdigit ''+1 303-493-7000'' \<noteq> []" by (simp add: isdigit_def)
  show ?thesis
    using phone_comparator [OF n1 n2, of "fuzz_const 0"] phone_comparator [OF n2 n3, of fuzz_lengths]
      phone_comparator [OF n2 n3, of "fuzz_const 150"]
      phone_comparator [OF n2 n3, of "fuzz_const (- 20)"]
    by (simp add: isdigit_def fuzz_const_def fuzz_lengths_def)
qed

section \<open>The method scorer\<close>

text \<open>
  Claim C7. The method score is the weighted average of the comparator's scores over the
  fields that are scored, the denominator being the sum of the weights of exactly those
  fields; the function returns it rounded to two decimals, as it returns every number.
  A field that is absent from the weight table has weight 0, in the numerator and in the
  denominator. With an empty field list, or weights that sum to 0, the score is 0 and not
  an error. Hence scoring a subset of the fields is scoring with the weights divided by
  their sum over that subset.
\<close>

theorem method_score_weighted_average:
  "(\<exists>bd. compute_method_score F m e r (Some fs) =
      Inr (py_round (if (\<Sum>f\<leftarrow>fs. dict_get FIELD_WEIGHTS f 0) = 0 then 0
                     else (\<Sum>f\<leftarrow>fs. similarity F e r f * dict_get FIELD_WEIGHTS f 0) /
                          (\<Sum>f\<leftarrow>fs. dict_get FIELD_WEIGHTS f 0)) 2, bd)) \<and>
   compute_method_score F m e r None = compute_method_score F m e r (Some tracked_fields) \<and>
   (f \<notin> fst ` set FIELD_WEIGHTS \<longrightarrow> dict_get FIELD_WEIGHTS f 0 = 0) \<and>
   compute_method_score F m e r (Some []) = Inr (0, []) \<and>
   ((\<Sum>f\<leftarrow>fs. dict_get FIELD_WEIGHTS f 0) = 0 \<longrightarrow>
      (\<exists>bd. compute_method_score F m e r (Some fs) = Inr (0, bd))) \<and>
   ((\<Sum>f\<leftarrow>fs. dict_get FIELD_WEIGHTS f 0) \<noteq> 0 \<longrightarrow>
      (\<exists>bd. compute_method_score F m e r (Some fs) =
         Inr (py_round (\<Sum>f\<leftarrow>fs. similarity F e r f *
                (dict_get FIELD_WEIGHTS f 0 / (\<Sum>g\<leftarrow>fs. dict_get FIELD_WEIGHTS g 0))) 2, bd)))"
proof -
  let ?w = "\<lambda>f. dict_get FIELD_WEIGHTS f 0"
  have renorm: "(\<Sum>f\<leftarrow>fs. similarity F e r f * ?w f / W) = (\<Sum>f\<leftarrow>fs. similarity F e r f * ?w f) / W"
    for W
    by (induction fs) (simp_all add: add_divide_distrib)
  have "map_of FIELD_WEIGHTS f = None" if "f \<notin> fst ` set FIELD_WEIGHTS"
    using that by (simp add: map_of_eq_None_iff)
  then have absent: "f \<notin> fst ` set FIELD_WEIGHTS \<longrightarrow> dict_get FIELD_WEIGHTS f 0 = 0"
    by (simp add: dict_get_def)
  show ?thesis
    using absent
    by (simp add: compute_method_score_eq weighted_average_def py_round_zero renorm)
qed

theorem method_score_weighted_average_witness:
  "compute_method_score (fuzz_const 90) ''npi_registry'' demo_extracted demo_npireg
     (Some [''npi'', ''phone'']) = Inr (100, [(''npi'', 100), (''phone'', 100)]) \<and>
   compute_method_score (fuzz_const 90) ''google_maps'' demo_extracted demo_maps
     (Some [''npi'', ''phone'']) = Inr (30, [(''npi'', 0), (''phone'', 90)]) \<and>
   compute_method_score (fuzz_const 90) ''google_maps'' demo_extracted demo_maps
     (Some [''npi'', ''phone'', ''specialty'']) =
       Inr (2455 / 100, [(''npi'', 0), (''phone'', 90), (''specialty'', 0)]) \<and>
   (\<Sum>f\<leftarrow>[''npi'', ''phone'']. dict_get FIELD_WEIGHTS f 0) \<noteq> 0 \<and>
   py_round (\<Sum>f\<leftarrow>[''npi'', ''phone'']. similarity (fuzz_const 90) demo_extracted demo_maps f *
      (dict_get FIELD_WEIGHTS f 0 / (\<Sum>g\<leftarrow>[''npi'', ''phone'']. dict_get FIELD_WEIGHTS g 0))) 2 = 30 \<and>
   ''fax'' \<notin> fst ` set FIELD_WEIGHTS \<and>
   (\<Sum>f\<leftarrow>[''fax'']. dict_get FIELD_WEIGHTS f 0) = 0 \<and>
   (\<exists>bd. compute_method_score (fuzz_const 90) ''google_maps'' demo_extracted demo_maps
     (Some [''fax'']) = Inr (0, bd))"
proof -
  have w: "(\<Sum>f\<leftarrow>[''npi'', ''phone'']. dict_get FIELD_WEIGHTS f 0) \<noteq> 0"
    by (simp add: dict_get_def FIELD_WEIGHTS_def)
  have a: "''fax'' \<notin> fst ` set FIELD_WEIGHTS" by (simp add: FIELD_WEIGHTS_def)
  have z: "(\<Sum>f\<leftarrow>[''fax'']. dict_get FIELD_WEIGHTS f 0) = 0"
    by (simp add: dict_get_def FIELD_WEIGHTS_def)
  have 1: "compute_method_score (fuzz_const 90) ''npi_registry'' demo_extracted demo_npireg
     (Some [''npi'', ''phone'']) = Inr (100, [(''npi'', 100), (''phone'', 100)])"
    by (simp add: compute_method_score_def dict_get_def demo_eval)
  have 2: "compute_method_score (fuzz_const 90) ''google_maps'' demo_extracted demo_maps
     (Some [''npi'', ''phone'']) = Inr (30, [(''npi'', 0), (''phone'', 90)])"
    by (simp add: compute_method_score_def dict_get_def demo_eval)
  have 5: "compute_method_score (fuzz_const 90) ''google_maps'' demo_extracted demo_maps
     (Some [''npi'', ''phone'', ''specialty'']) =
       Inr (2455 / 100, [(''npi'', 0), (''phone'', 90), (''specialty'', 0)])"
    by (simp add: compute_method_score_def dict_get_def demo_eval)
  from method_score_weighted_average [of "fuzz_const 90" "''google_maps''" demo_extracted demo_maps
      "[''npi'', ''phone'']" "''fax''"] w 2
  have 3: "py_round (\<Sum>f\<leftarrow>[''npi'', ''phone'']. similarity (fuzz_const 90) demo_extracted demo_maps f *
      (dict_get FIELD_WEIGHTS f 0 / (\<Sum>g\<leftarrow>[''npi'', ''phone'']. dict_get FIELD_WEIGHTS g 0))) 2 = 30"
    by auto
  from method_score_weighted_average [of "fuzz_const 90" "''google_maps''" demo_extracted demo_maps
      "[''fax'']" "''fax''"] z
  have 4: "\<exists>bd. compute_method_score (fuzz_const 90) ''google_maps'' demo_extracted demo_maps
     (Some [''fax'']) = Inr (0, bd)"
    by blast
  from 1 2 5 w 3 a z 4 show ?thesis by (intro conjI)
qed

section \<open>The cross-method aggregator\<close>

text \<open>
  Claim C1, as the specification states it, says that a method reporting null for a field
  is left out of that field's weighted average. The code does not do that. In the demo
  records of the source, \<^verbatim>\<open>google_maps\<close> reports no specialty and the two other methods
  report the claimed specialty exactly: the code returns 75 for the field, the average
  over the two reporting methods is 100.
\<close>

theorem silent_method_counterexample:
  "demo_maps ''specialty'' = None \<and>
   combined_of (compute_combined_field_confidences (fuzz_const 90) demo_extracted demo_methods None)
     ''specialty'' = Some 75 \<and>
   spec_combined_confidence (fuzz_const 90) demo_extracted demo_methods None ''specialty'' = 100"
proof (intro conjI)
  show "demo_maps ''specialty'' = None" by (simp add: demo_maps_def)
  show "combined_of (compute_combined_field_confidences (fuzz_const 90) demo_extracted demo_methods None)
     ''specialty'' = Some 75"
    by (simp add: compute_combined_field_confidences_def combined_of_def demo_eval)
  show "spec_combined_confidence (fuzz_const 90) demo_extracted demo_methods None ''specialty'' = 100"
    by (simp add: spec_combined_confidence_def reporting_methods_def weighted_average_def
        similarity_def method_weight_def demo_eval)
qed

text \<open>
  Claim C1, amended. For every tracked field, the combined field confidence is the
  weighted average, rounded to two decimals, of the per-method similarities over all the
  methods present in the method results, normalised by the sum of the weights of all of
  them. A method that reports null for the field has the similarity 0 there and keeps
  its full weight in the denominator.
\<close>

theorem combined_confidence_over_all_methods:
  assumes "distinct (map fst mrs)" and "f \<in> set tracked_fields"
  shows "combined_of (compute_combined_field_confidences F e mrs mwa) f =
           Some (py_round (weighted_average (\<lambda>(m, r). similarity F e r f)
                             (\<lambda>(m, r). method_weight mwa m) mrs) 2) \<and>
         (\<forall>(m, r) \<in> set mrs. r f = None \<longrightarrow> similarity F e r f = 0)"
proof
  show "combined_of (compute_combined_field_confidences F e mrs mwa) f =
           Some (py_round (weighted_average (\<lambda>(m, r). similarity F e r f)
                             (\<lambda>(m, r). method_weight mwa m) mrs) 2)"
    using assms(2)
    by (simp add: compute_combined_eq [OF assms(1)] combined_of_def map_of_map_key
        case_prod_snd case_prod_fst)
next
  have "similarity F e r f = 0" if "r f = None" for r
    using that missing_value_zero [of "e f" "r f" F f] by (simp add: similarity_def)
  then show "\<forall>(m, r) \<in> set mrs. r f = None \<longrightarrow> similarity F e r f = 0" by auto
qed

theorem combined_confidence_over_all_methods_witness:
  "distinct (map fst demo_methods) \<and> ''specialty'' \<in> set tracked_fields \<and>
   demo_maps ''specialty'' = None \<and>
   similarity (fuzz_const 90) demo_extracted demo_maps ''specialty'' = 0 \<and>
   combined_of (compute_combined_field_confidences (fuzz_const 90) demo_extracted demo_methods None)
     ''specialty'' = Some 75"
proof -
  have t: "''specialty'' \<in> set tracked_fields"
    by (simp add: tracked_fields_def FIELD_WEIGHTS_def)
  have n: "demo_maps ''specialty'' = None" by (simp add: demo_maps_def)
  have w: "py_round (weighted_average (\<lambda>(m, r). similarity (fuzz_const 90) demo_extracted r ''specialty'')
              (\<lambda>(m, r). method_weight None m) demo_methods) 2 = 75"
    by (simp add: weighted_average_def similarity_def method_weight_def demo_eval)
  show ?thesis
    using combined_confidence_over_all_methods [OF demo_methods_distinct t, of "fuzz_const 90"
        demo_extracted None] demo_methods_distinct t n w
    by (simp add: demo_methods_def)
qed

text \<open>
  Claim C9. The method scorer and the aggregator compute the similarity of a field with
  the same comparator: for every method of the method results and every tracked field,
  the entry of the aggregator's matrix is the comparator's value, and the entry of that
  method's breakdown is the same value rounded to two decimals.
\<close>

theorem scorer_and_aggregator_same_comparator:
  assumes "distinct (map fst mrs)" and "(m, r) \<in> set mrs" and "f \<in> set tracked_fields"
  shows "\<exists>ms cf pmf ov s pf.
           evaluate_all F e mrs mwa fwa = Inr (ms, cf, pmf, ov) \<and>
           compute_combined_field_confidences F e mrs mwa = Inr (cf, pmf) \<and>
           map_of pmf m = Some pf \<and>
           map_of pf f = Some (field_confidence_for_method F f (e f) (r f)) \<and>
           map_of ms m = Some s \<and>
           compute_method_score F m e r None = Inr (method_score s, breakdown s) \<and>
           map_of (breakdown s) f = Some (py_round (field_confidence_for_method F f (e f) (r f)) 2)"
proof -
  let ?s = "\<lambda>r. \<lparr>method_score = py_round (weighted_average (similarity F e r)
                                      (\<lambda>f. dict_get FIELD_WEIGHTS f 0) tracked_fields) 2,
             breakdown = map (\<lambda>f. (f, py_round (similarity F e r f) 2)) tracked_fields\<rparr>"
  let ?pf = "\<lambda>r. map (\<lambda>f. (f, similarity F e r f)) tracked_fields"
  have 1: "map_of (map (\<lambda>(m, r). (m, ?pf r)) mrs) m = Some (?pf r)"
    using assms(1,2) by (rule map_of_map_snd)
  have 2: "map_of (?pf r) f = Some (field_confidence_for_method F f (e f) (r f))"
    using assms(3) by (simp add: map_of_map_key similarity_def)
  have 3: "map_of (map (\<lambda>(m, r). (m, ?s r)) mrs) m = Some (?s r)"
    using assms(1,2) by (rule map_of_map_snd)
  have 4: "compute_method_score F m e r None = Inr (method_score (?s r), breakdown (?s r))"
    by (simp add: compute_method_score_eq fold_update_distinct tracked_fields_distinct)
  have 5: "map_of (breakdown (?s r)) f = Some (py_round (field_confidence_for_method F f (e f) (r f)) 2)"
    using assms(3) by (simp add: map_of_map_key similarity_def)
  show ?thesis
    unfolding evaluate_all_eq [OF assms(1)] compute_combined_eq [OF assms(1)]
    using 1 2 3 4 5 by blast
qed

theorem scorer_and_aggregator_same_comparator_witness:
  "distinct (map fst demo_methods) \<and> (''google_maps'', demo_maps) \<in> set demo_methods \<and>
   ''phone'' \<in> set tracked_fields \<and>
   field_confidence_for_method (fuzz_const (100 / 3)) ''phone'' (demo_extracted ''phone'')
     (demo_maps ''phone'') = 100 / 3 \<and>
   py_round (100 / 3) 2 = 3333 / 100 \<and>
   (\<exists>ms cf pmf ov s pf.
      evaluate_all (fuzz_const (100 / 3)) demo_extracted demo_methods None None = Inr (ms, cf, pmf, ov) \<and>
      map_of pmf ''google_maps'' = Some pf \<and> map_of pf ''phone'' = Some (100 / 3) \<and>
      map_of ms ''google_maps'' = Some s \<and> map_of (breakdown s) ''phone'' = Some (3333 / 100))"
proof -
  have m: "(''google_maps'', demo_maps) \<in> set demo_methods" by (simp add: demo_methods_def)
  have t: "''phone'' \<in> set tracked_fields" by (simp add: tracked_fields_def FIELD_WEIGHTS_def)
  have c: "field_confidence_for_method (fuzz_const (100 / 3)) ''phone'' (demo_extracted ''phone'')
     (demo_maps ''phone'') = 100 / 3"
    by (simp add: demo_eval)
  have p: "py_round (100 / 3) 2 = 3333 / 100"
    by (simp add: py_round_def round_half_even_def)
  show ?thesis
    using scorer_and_aggregator_same_comparator [OF demo_methods_distinct m t,
        of "fuzz_const (100 / 3)" demo_extracted None None] demo_methods_distinct m t c p
    by (simp only:) blast
qed

section \<open>Bounds and rounding of the outputs\<close>

text \<open>
  Claim C2, as the specification states it, covers every weight table without a negative
  weight. A float has a largest value: with the non-negative method weights \<open>10\<^sup>3\<^sup>0\<^sup>8\<close>
  for two methods of the demo records, the products and the sum of the weights overflow
  to infinity, every combined field confidence is the quotient of two infinities, NaN,
  and so is the overall confidence. NaN is not between 0 and 100.
\<close>

theorem overflowing_weights_counterexample:
  "huge_weights ''npi_registry'' = Some (PyFloat (Fin (10 ^ 308))) \<and>
   huge_weights ''web_scrape'' = Some (PyFloat (Fin (10 ^ 308))) \<and>
   huge_weights ''google_maps'' = None \<and>
   finite_nonneg (PyFloat (Fin (10 ^ 308))) \<and>
   (case compute_combined_field_confidences_ieee (fuzz_const 90) demo_extracted demo_methods
           (Some huge_weights) of
      Inl err \<Rightarrow> False
    | Inr (cf, pmf) \<Rightarrow>
        cf = [(''npi'', NaN), (''name'', NaN), (''address'', NaN), (''phone'', NaN),
              (''specialty'', NaN)] \<and>
        compute_overall_confidence_ieee cf None = Inr NaN) \<and>
   \<not> in_range_ieee NaN"
proof (intro conjI)
  show "huge_weights ''npi_registry'' = Some (PyFloat (Fin (10 ^ 308)))"
    "huge_weights ''web_scrape'' = Some (PyFloat (Fin (10 ^ 308)))"
    "huge_weights ''google_maps'' = None"
    by (simp_all add: huge_weights_def)
  show "finite_nonneg (PyFloat (Fin (10 ^ 308)))" by simp
  show "case compute_combined_field_confidences_ieee (fuzz_const 90) demo_extracted demo_methods
           (Some huge_weights) of
      Inl err \<Rightarrow> False
    | Inr (cf, pmf) \<Rightarrow>
        cf = [(''npi'', NaN), (''name'', NaN), (''address'', NaN), (''phone'', NaN),
              (''specialty'', NaN)] \<and>
        compute_overall_confidence_ieee cf None = Inr NaN"
    by (simp add: compute_combined_field_confidences_ieee_def compute_overall_confidence_ieee_def
        huge_weights_def ieee_eval demo_eval)
  show "\<not> in_range_ieee NaN" by simp
qed

text \<open>
  Claim C2, amended. For all records, all field lists and method sets, and all weight
  tables whose weights in use are finite, not negative and sum to at most \<open>10\<^sup>3\<^sup>0\<^sup>0\<close> (so
  that no product and no sum leaves the range of a float), every similarity the
  comparator returns, every method score and breakdown entry, every combined field
  confidence, every matrix entry and the overall confidence lie between 0 and 100; the
  comparator clamps its result.
\<close>

theorem scores_in_range_bounded_weights:
  assumes "distinct (map fst mrs)"
    and "\<forall>x \<in> set mrs. finite_nonneg (method_weight_ieee mwa (fst x))"
    and "(\<Sum>x\<leftarrow>mrs. real_value (method_weight_ieee mwa (fst x))) \<le> 10 ^ 300"
    and "\<forall>f \<in> set tracked_fields. finite_nonneg (field_weight_ieee fwa f)"
    and "(\<Sum>f\<leftarrow>tracked_fields. real_value (field_weight_ieee fwa f)) \<le> 10 ^ 300"
  shows "in_range (field_confidence_for_method F f a b) \<and>
    (\<exists>s bd. compute_method_score F m e r fa = Inr (s, bd) \<and> in_range s \<and>
       (\<forall>(f, v) \<in> set bd. in_range v)) \<and>
    (\<exists>cf pmf ov. compute_combined_field_confidences_ieee F e mrs mwa = Inr (cf, pmf) \<and>
       compute_overall_confidence_ieee cf fwa = Inr ov \<and>
       (\<forall>(f, v) \<in> set cf. in_range_ieee v) \<and>
       (\<forall>(m, pf) \<in> set pmf. \<forall>(f, v) \<in> set pf. in_range v) \<and>
       in_range_ieee ov)"
proof (intro conjI)
  show "in_range (field_confidence_for_method F f a b)"
    by (simp add: in_range_def fcm_range)
next
  define fl where "fl = (case fa of None \<Rightarrow> tracked_fields | Some fs \<Rightarrow> fs)"
  define bd where "bd = fold (\<lambda>f. AList.update f (py_round (similarity F e r f) 2)) fl []"
  have "in_range v" if "(k, v) \<in> set bd" for k v
  proof -
    from that have "v = py_round (similarity F e r k) 2"
      using fold_update_set [of k v "\<lambda>f. py_round (similarity F e r f) 2" fl "[]"]
      by (simp add: bd_def)
    then show ?thesis by (simp add: in_range_py_round in_range_similarity)
  qed
  then have "\<forall>(f, v) \<in> set bd. in_range v" by auto
  moreover have "compute_method_score F m e r fa =
      Inr (py_round (weighted_average (similarity F e r) (\<lambda>f. dict_get FIELD_WEIGHTS f 0) fl) 2, bd)"
    by (simp add: compute_method_score_eq fl_def bd_def Let_def)
  ultimately show "\<exists>s bd. compute_method_score F m e r fa = Inr (s, bd) \<and> in_range s \<and>
       (\<forall>(f, v) \<in> set bd. in_range v)"
    using in_range_py_round [OF method_score_in_range [of F e r fl]] by blast
next
  let ?w = "\<lambda>x. real_value (method_weight_ieee mwa (fst x))"
  let ?v = "\<lambda>f. py_round (weighted_average (\<lambda>x. similarity F e (snd x) f) ?w mrs) 2"
  let ?cs = "map (\<lambda>f. (f, ?v f)) tracked_fields"
  let ?pmf = "map (\<lambda>(m, r). (m, map (\<lambda>f. (f, similarity F e r f)) tracked_fields)) mrs"
  have v: "in_range (?v f)" for f
  proof (intro in_range_py_round weighted_average_range)
    fix x assume "x \<in> set mrs"
    then show "0 \<le> similarity F e (snd x) f \<and> similarity F e (snd x) f \<le> 100 \<and> 0 \<le> ?w x"
      using in_range_similarity [of F e "snd x" f] assms(2)
      by (simp add: in_range_def real_value_nonneg)
  qed
  have cf_eq: "map (\<lambda>f. (f, Fin (?v f))) tracked_fields = map (\<lambda>(f, c). (f, Fin c)) ?cs"
    by simp
  have comb: "compute_combined_field_confidences_ieee F e mrs mwa =
      Inr (map (\<lambda>(f, c). (f, Fin c)) ?cs, ?pmf)"
    using compute_combined_ieee_exact [OF assms(1-3), of F e] unfolding cf_eq .
  have sumw: "(\<Sum>x\<leftarrow>?cs. real_value (field_weight_ieee fwa (fst x))) =
      (\<Sum>f\<leftarrow>tracked_fields. real_value (field_weight_ieee fwa f))"
    by (simp add: comp_def)
  have ov: "compute_overall_confidence_ieee (map (\<lambda>(f, c). (f, Fin c)) ?cs) fwa =
      Inr (Fin (py_round (weighted_average snd (\<lambda>x. real_value (field_weight_ieee fwa (fst x))) ?cs) 2))"
  proof (rule compute_overall_ieee_exact)
    show "\<forall>x \<in> set ?cs. finite_nonneg (field_weight_ieee fwa (fst x)) \<and> in_range (snd x)"
      using assms(4) v by auto
    show "(\<Sum>x\<leftarrow>?cs. real_value (field_weight_ieee fwa (fst x))) \<le> 10 ^ 300"
      using assms(5) unfolding sumw .
  qed
  have ovr: "in_range (py_round (weighted_average snd
      (\<lambda>x. real_value (field_weight_ieee fwa (fst x))) ?cs) 2)"
  proof (intro in_range_py_round weighted_average_range)
    fix x assume "x \<in> set ?cs"
    then show "0 \<le> snd x \<and> snd x \<le> 100 \<and> 0 \<le> real_value (field_weight_ieee fwa (fst x))"
      using assms(4) v by (auto simp add: in_range_def real_value_nonneg)
  qed
  have cfr: "\<forall>(f, v) \<in> set (map (\<lambda>(f, c). (f, Fin c)) ?cs). in_range_ieee v"
    using v by auto
  have pmfr: "\<forall>(m, pf) \<in> set ?pmf. \<forall>(f, v) \<in> set pf. in_range v"
    by (auto simp add: in_range_similarity)
  show "\<exists>cf pmf ov. compute_combined_field_confidences_ieee F e mrs mwa = Inr (cf, pmf) \<and>
       compute_overall_confidence_ieee cf fwa = Inr ov \<and>
       (\<forall>(f, v) \<in> set cf. in_range_ieee v) \<and>
       (\<forall>(m, pf) \<in> set pmf. \<forall>(f, v) \<in> set pf. in_range v) \<and>
       in_range_ieee ov"
    using comb ov ovr cfr pmfr by (intro exI conjI) (assumption | simp)+
qed

theorem scores_in_range_bounded_weights_witness:
  "distinct (map fst demo_methods) \<and>
   finite_nonneg (method_weight_ieee None ''npi_registry'') \<and>
   finite_nonneg (method_weight_ieee None ''web_scrape'') \<and>
   finite_nonneg (method_weight_ieee None ''google_maps'') \<and>
   (\<Sum>x\<leftarrow>demo_methods. real_value (method_weight_ieee None (fst x))) = 1 \<and>
   (\<Sum>f\<leftarrow>tracked_fields. real_value (field_weight_ieee None f)) = 1 \<and>
   field_confidence_for_method (fuzz_const 150) ''name'' (Some ''Kevin Bradley Rothchild'')
     (Some ''Kevin B Rothchild'') = 100 \<and>
   combined_of_ieee (compute_combined_field_confidences_ieee (fuzz_const 150) demo_extracted
     demo_methods None) ''name'' = Some (Fin 75) \<and>
   (\<exists>cf pmf ov. compute_combined_field_confidences_ieee (fuzz_const 150) demo_extracted demo_methods
        None = Inr (cf, pmf) \<and>
      compute_overall_confidence_ieee cf None = Inr ov \<and> in_range_ieee ov)"
proof -
  have w: "finite_nonneg (method_weight_ieee None ''npi_registry'')"
    "finite_nonneg (method_weight_ieee None ''web_scrape'')"
    "finite_nonneg (method_weight_ieee None ''google_maps'')"
    by (simp_all add: method_weight_ieee_def map_get_def float_table_def METHOD_WEIGHTS_def)
  then have h2: "\<forall>x \<in> set demo_methods. finite_nonneg (method_weight_ieee None (fst x))"
    by (simp add: demo_methods_def)
  have s1: "(\<Sum>x\<leftarrow>demo_methods. real_value (method_weight_ieee None (fst x))) = 1"
    by (simp add: demo_methods_def method_weight_ieee_def map_get_def float_table_def
        METHOD_WEIGHTS_def)
  then have h3: "(\<Sum>x\<leftarrow>demo_methods. real_value (method_weight_ieee None (fst x))) \<le> 10 ^ 300"
    by simp
  have h4: "\<forall>f \<in> set tracked_fields. finite_nonneg (field_weight_ieee None f)"
    by (simp add: tracked_fields_def field_weight_ieee_def map_get_def float_table_def
        FIELD_WEIGHTS_def)
  have s2: "(\<Sum>f\<leftarrow>tracked_fields. real_value (field_weight_ieee None f)) = 1"
    by (simp add: tracked_fields_def field_weight_ieee_def map_get_def float_table_def
        FIELD_WEIGHTS_def)
  then have h5: "(\<Sum>f\<leftarrow>tracked_fields. real_value (field_weight_ieee None f)) \<le> 10 ^ 300"
    by simp
  have c: "field_confidence_for_method (fuzz_const 150) ''name'' (Some ''Kevin Bradley Rothchild'')
     (Some ''Kevin B Rothchild'') = 100"
    by (simp add: field_confidence_for_method_def fuzz_const_def)
  have n: "combined_of_ieee (compute_combined_field_confidences_ieee (fuzz_const 150) demo_extracted
     demo_methods None) ''name'' = Some (Fin 75)"
    by (simp add: compute_combined_field_confidences_ieee_def combined_of_ieee_def ieee_eval
        demo_eval)
  show ?thesis
    using scores_in_range_bounded_weights [OF demo_methods_distinct h2 h3 h4 h5,
        where F = "fuzz_const 150" and e = demo_extracted]
      demo_methods_distinct w s1 s2 c n
    by blast
qed



section \<open>Degenerate input and weight tables\<close>

text \<open>
  Claim C6. With no method results at all, the aggregator raises nothing and returns the
  combined confidence 0 for each of the five tracked fields, and the overall confidence
  computed from them is 0, whatever the weight tables: the division 0/0 is guarded.
\<close>

theorem empty_method_results:
  "compute_combined_field_confidences F e [] mwa =
     Inr ([(''npi'', 0), (''name'', 0), (''address'', 0), (''phone'', 0), (''specialty'', 0)], []) \<and>
   compute_overall_confidence
     [(''npi'', 0), (''name'', 0), (''address'', 0), (''phone'', 0), (''specialty'', 0)] fwa = Inr 0 \<and>
   evaluate_all F e [] mwa fwa =
     Inr ([], [(''npi'', 0), (''name'', 0), (''address'', 0), (''phone'', 0), (''specialty'', 0)], [], 0)"
proof -
  have c: "compute_combined_field_confidences F e [] mwa =
     Inr ([(''npi'', 0), (''name'', 0), (''address'', 0), (''phone'', 0), (''specialty'', 0)], [])"
    by (simp add: compute_combined_field_confidences_def FIELD_WEIGHTS_def py_round_zero)
  have "weighted_average snd (\<lambda>x. field_weight fwa (fst x))
          [(''npi'', 0), (''name'', 0), (''address'', 0), (''phone'', 0), (''specialty'', 0::real)] = 0"
    by (simp add: weighted_average_def)
  then have ov: "compute_overall_confidence
     [(''npi'', 0), (''name'', 0), (''address'', 0), (''phone'', 0), (''specialty'', 0)] fwa = Inr 0"
    by (simp only: compute_overall_confidence_eq py_round_zero)
  have ev: "evaluate_all F e [] mwa fwa =
     Inr ([], [(''npi'', 0), (''name'', 0), (''address'', 0), (''phone'', 0), (''specialty'', 0)], [], 0)"
    by (simp add: evaluate_all_def c ov)
  from c ov ev show ?thesis by (intro conjI)
qed

theorem empty_method_results_witness:
  "compute_combined_field_confidences (fuzz_const 80) demo_extracted [] None =
     Inr ([(''npi'', 0), (''name'', 0), (''address'', 0), (''phone'', 0), (''specialty'', 0)], []) \<and>
   compute_overall_confidence
     [(''npi'', 0), (''name'', 0), (''address'', 0), (''phone'', 0), (''specialty'', 0)] None = Inr 0"
  using empty_method_results [of "fuzz_const 80" demo_extracted None None] by simp

text \<open>
  Claim C8, as the specification states it, says that a weight table with a negative
  weight is rejected as a configuration error before any scoring, and that with weights
  that are not negative no scoring function raises. The code checks no weight. With the
  weight \<open>-1\<close> for \<^verbatim>\<open>google_maps\<close> the aggregator returns a result, 200 for \<^verbatim>\<open>npi\<close>, and the
  overall confidence computed from it is 159.5. With the integer weight \<open>10\<^sup>4\<^sup>0\<^sup>0\<close>, which
  is not negative, the first product raises \<^verbatim>\<open>OverflowError\<close> in the middle of the
  computation.
\<close>

theorem negative_weight_counterexample:
  "skewed_weights ''google_maps'' = Some (PyFloat (Fin (- 1))) \<and>
   (case compute_combined_field_confidences_ieee (fuzz_const 90) demo_extracted demo_methods
           (Some skewed_weights) of
      Inl err \<Rightarrow> False
    | Inr (cf, pmf) \<Rightarrow>
        cf = [(''npi'', Fin 200), (''name'', Fin 180), (''address'', Fin 90), (''phone'', Fin 110),
              (''specialty'', Fin 200)] \<and>
        compute_overall_confidence_ieee cf None = Inr (Fin (319 / 2))) \<and>
   huge_int_weights ''npi_registry'' = Some (PyInt (10 ^ 400)) \<and>
   finite_nonneg (PyInt (10 ^ 400)) \<and>
   compute_combined_field_confidences_ieee (fuzz_const 90) demo_extracted demo_methods
     (Some huge_int_weights) = Inl OverflowError"
proof (intro conjI)
  show "skewed_weights ''google_maps'' = Some (PyFloat (Fin (- 1)))"
    by (simp add: skewed_weights_def)
  show "case compute_combined_field_confidences_ieee (fuzz_const 90) demo_extracted demo_methods
           (Some skewed_weights) of
      Inl err \<Rightarrow> False
    | Inr (cf, pmf) \<Rightarrow>
        cf = [(''npi'', Fin 200), (''name'', Fin 180), (''address'', Fin 90), (''phone'', Fin 110),
              (''specialty'', Fin 200)] \<and>
        compute_overall_confidence_ieee cf None = Inr (Fin (319 / 2))"
    by (simp add: compute_combined_field_confidences_ieee_def compute_overall_confidence_ieee_def
        skewed_weights_def ieee_eval demo_eval)
  show "huge_int_weights ''npi_registry'' = Some (PyInt (10 ^ 400))"
    by (simp add: huge_int_weights_def)
  show "finite_nonneg (PyInt (10 ^ 400))" by simp
  show "compute_combined_field_confidences_ieee (fuzz_const 90) demo_extracted demo_methods
     (Some huge_int_weights) = Inl OverflowError"
    by (simp add: compute_combined_field_confidences_ieee_def huge_int_weights_def ieee_eval
        demo_eval)
qed

text \<open>
  Claim C8, amended. No weight table is rejected before scoring: the code never
  validates weights, and a negative weight is taken like any other number. The
  aggregator and the overall computation return a result whenever every weight in use is
  a float (negative, infinite and NaN included) or an integer inside the range of a
  float, and the method scorer always returns. The only failure a weight table can cause
  comes in the middle of the computation: \<^verbatim>\<open>OverflowError\<close>, exactly when an integer weight
  in use is too large to convert to a float.
\<close>

theorem no_weight_table_is_rejected:
  assumes "distinct (map fst mrs)"
  shows "((\<forall>x \<in> set mrs. fits_float (method_weight_ieee mwa (fst x))) \<longrightarrow>
            (\<exists>res. compute_combined_field_confidences_ieee F e mrs mwa = Inr res)) \<and>
         ((\<exists>x \<in> set mrs. \<not> fits_float (method_weight_ieee mwa (fst x))) \<longrightarrow>
            compute_combined_field_confidences_ieee F e mrs mwa = Inl OverflowError) \<and>
         ((\<forall>x \<in> set cs. fits_float (field_weight_ieee fwa (fst x))) \<longrightarrow>
            (\<exists>ov. compute_overall_confidence_ieee cs fwa = Inr ov)) \<and>
         ((\<exists>x \<in> set cs. \<not> fits_float (field_weight_ieee fwa (fst x))) \<longrightarrow>
            compute_overall_confidence_ieee cs fwa = Inl OverflowError) \<and>
         (\<exists>res. compute_method_score F m e r fa = Inr res) \<and>
         fits_float (PyFloat x) \<and>
         fits_float (PyInt i) = (\<bar>real_of_int i\<bar> < 2 ^ 1024 - 2 ^ 970)"
proof (intro conjI impI)
  show "\<exists>res. compute_combined_field_confidences_ieee F e mrs mwa = Inr res"
    if "\<forall>x \<in> set mrs. fits_float (method_weight_ieee mwa (fst x))"
    using assms that by (rule compute_combined_ieee_fits)
  show "compute_combined_field_confidences_ieee F e mrs mwa = Inl OverflowError"
    if "\<exists>x \<in> set mrs. \<not> fits_float (method_weight_ieee mwa (fst x))"
    using assms that by (rule compute_combined_ieee_overflow)
  show "\<exists>ov. compute_overall_confidence_ieee cs fwa = Inr ov"
    if "\<forall>x \<in> set cs. fits_float (field_weight_ieee fwa (fst x))"
    using that by (rule compute_overall_ieee_fits)
  show "compute_overall_confidence_ieee cs fwa = Inl OverflowError"
    if "\<exists>x \<in> set cs. \<not> fits_float (field_weight_ieee fwa (fst x))"
    using that by (rule compute_overall_ieee_overflow)
  show "\<exists>res. compute_method_score F m e r fa = Inr res"
    by (simp add: compute_method_score_eq Let_def)
  show "fits_float (PyFloat x)" by simp
  show "fits_float (PyInt i) = (\<bar>real_of_int i\<bar> < 2 ^ 1024 - 2 ^ 970)"
    by (simp add: FLOAT_LIMIT_def)
qed

theorem no_weight_table_is_rejected_witness:
  "distinct (map fst demo_methods) \<and>
   method_weight_ieee (Some skewed_weights) ''google_maps'' = PyFloat (Fin (- 1)) \<and>
   fits_float (method_weight_ieee (Some skewed_weights) ''npi_registry'') \<and>
   fits_float (method_weight_ieee (Some skewed_weights) ''web_scrape'') \<and>
   fits_float (method_weight_ieee (Some skewed_weights) ''google_maps'') \<and>
   (\<exists>res. compute_combined_field_confidences_ieee (fuzz_const 90) demo_extracted demo_methods
      (Some skewed_weights) = Inr res) \<and>
   combined_of_ieee (compute_combined_field_confidences_ieee (fuzz_const 90) demo_extracted
     demo_methods (Some skewed_weights)) ''npi'' = Some (Fin 200) \<and>
   \<not> fits_float (method_weight_ieee (Some huge_int_weights) ''npi_registry'') \<and>
   compute_combined_field_confidences_ieee (fuzz_const 90) demo_extracted demo_methods
     (Some huge_int_weights) = Inl OverflowError"
proof -
  have g: "method_weight_ieee (Some skewed_weights) ''google_maps'' = PyFloat (Fin (- 1))"
    by (simp add: method_weight_ieee_def map_get_def skewed_weights_def)
  have w: "fits_float (method_weight_ieee (Some skewed_weights) ''npi_registry'')"
    "fits_float (method_weight_ieee (Some skewed_weights) ''web_scrape'')"
    "fits_float (method_weight_ieee (Some skewed_weights) ''google_maps'')"
    by (simp_all add: method_weight_ieee_def map_get_def skewed_weights_def)
  then have all: "\<forall>x \<in> set demo_methods. fits_float (method_weight_ieee (Some skewed_weights) (fst x))"
    by (simp add: demo_methods_def)
  have n: "\<not> fits_float (method_weight_ieee (Some huge_int_weights) ''npi_registry'')"
    by (simp add: method_weight_ieee_def map_get_def huge_int_weights_def FLOAT_LIMIT_def)
  then have ex: "\<exists>x \<in> set demo_methods. \<not> fits_float (method_weight_ieee (Some huge_int_weights) (fst x))"
    by (simp add: demo_methods_def)
  have v: "combined_of_ieee (compute_combined_field_confidences_ieee (fuzz_const 90) demo_extracted
     demo_methods (Some skewed_weights)) ''npi'' = Some (Fin 200)"
    by (simp add: compute_combined_field_confidences_ieee_def combined_of_ieee_def
        skewed_weights_def ieee_eval demo_eval)
  show ?thesis
    using no_weight_table_is_rejected [OF demo_methods_distinct,
        where F = "fuzz_const 90" and e = demo_extracted and mwa = "Some skewed_weights"]
      no_weight_table_is_rejected [OF demo_methods_distinct,
        where F = "fuzz_const 90" and e = demo_extracted and mwa = "Some huge_int_weights"]
      demo_methods_distinct g w all n ex v
    by blast
qed

end
